theory Spec2Isabelle
  imports Complex_Main "HOL-Library.Sublist"
begin

section \<open>JavaScript values used by the two apps\<close>

text \<open>
  A JavaScript Number is modelled as \<open>NaN\<close>, the two infinities, or a finite value. Finite
  values are rationals: inside the range of doubles a sum is the exact sum (the rounding
  of IEEE doubles and the negative zero are not represented), and a sum that leaves the
  range is an infinity. An amount the receipt scanner keeps is a decimal below 10000 with
  at most two fraction digits; two such decimals are equal, or ordered, exactly as their
  nearest doubles are.
\<close>

datatype number = NaN | NegInf | Fin rat | PosInf

text \<open>
  The result of an operation whose exact value is \<open>v\<close>: from \<open>2^1024 - 2^970\<close> on, half way
  between the largest double and \<open>2^1024\<close>, the value rounds to an infinity.
\<close>

definition overflow :: "rat \<Rightarrow> number" where
  "overflow v =
     (if 2 ^ 1024 - 2 ^ 970 \<le> \<bar>v\<bar> then (if 0 < v then PosInf else NegInf) else Fin v)"

text \<open>\<open>a + b\<close> on Numbers.\<close>

fun nadd :: "number \<Rightarrow> number \<Rightarrow> number" where
  "nadd (Fin a) (Fin b) = overflow (a + b)"
| "nadd NaN _ = NaN"
| "nadd _ NaN = NaN"
| "nadd PosInf NegInf = NaN"
| "nadd NegInf PosInf = NaN"
| "nadd PosInf _ = PosInf"
| "nadd _ PosInf = PosInf"
| "nadd NegInf _ = NegInf"
| "nadd _ NegInf = NegInf"

fun nneg :: "number \<Rightarrow> number" where
  "nneg NaN = NaN"
| "nneg NegInf = PosInf"
| "nneg (Fin a) = Fin (- a)"
| "nneg PosInf = NegInf"

text \<open>\<open>a - b\<close> on Numbers.\<close>

definition nsub :: "number \<Rightarrow> number \<Rightarrow> number" where
  "nsub a b = nadd a (nneg b)"

text \<open>\<open>a < b\<close> and \<open>a <= b\<close> on Numbers: false as soon as one side is \<open>NaN\<close>.\<close>

fun nlt :: "number \<Rightarrow> number \<Rightarrow> bool" where
  "nlt NaN _ = False"
| "nlt _ NaN = False"
| "nlt (Fin a) (Fin b) = (a < b)"
| "nlt NegInf NegInf = False"
| "nlt NegInf _ = True"
| "nlt _ NegInf = False"
| "nlt PosInf _ = False"
| "nlt _ PosInf = True"

definition nle :: "number \<Rightarrow> number \<Rightarrow> bool" where
  "nle a b = (a \<noteq> NaN \<and> b \<noteq> NaN \<and> (a = b \<or> nlt a b))"

text \<open>The global \<open>isNaN\<close>, applied to a Number.\<close>

definition isNaN :: "number \<Rightarrow> bool" where
  "isNaN n = (n = NaN)"

subsection \<open>parseFloat on strings\<close>

text \<open>
  Strings are lists of 8-bit characters. White space (\<open>StrWhiteSpaceChar\<close>, also the
  class \<open>\s\<close> of regular expressions) is TAB, LF, VT, FF, CR, SP and NBSP in this range.
\<close>

definition isWhiteSpace :: "char \<Rightarrow> bool" where
  "isWhiteSpace c = (c \<in> set [CHR 0x09, CHR 0x0A, CHR 0x0B, CHR 0x0C, CHR 0x0D, CHR 0x20, CHR 0xA0])"

definition isDigit :: "char \<Rightarrow> bool" where
  "isDigit c = (c \<in> set ''0123456789'')"

definition digit_val :: "char \<Rightarrow> nat" where
  "digit_val c = of_char c - 48"

definition digits_val :: "string \<Rightarrow> nat" where
  "digits_val ds = foldl (\<lambda>n c. 10 * n + digit_val c) 0 ds"

text \<open>
  The optional \<open>ExponentPart\<close> at the head of a string: \<open>e\<close> or \<open>E\<close>, an optional sign
  and at least one digit. Without a digit there is no exponent part and the value is 0.
\<close>

definition exponent_part :: "string \<Rightarrow> int" where
  "exponent_part r =
     (case r of
        [] \<Rightarrow> 0
      | c # cs \<Rightarrow>
          if c = CHR ''e'' \<or> c = CHR ''E'' then
            (case cs of
               [] \<Rightarrow> 0
             | d # ds \<Rightarrow>
                 if d = CHR ''-'' then
                   (if takeWhile isDigit ds = [] then 0 else - int (digits_val (takeWhile isDigit ds)))
                 else if d = CHR ''+'' then int (digits_val (takeWhile isDigit ds))
                 else int (digits_val (takeWhile isDigit cs)))
          else 0)"

definition scale10 :: "rat \<Rightarrow> int \<Rightarrow> rat" where
  "scale10 m e = (if 0 \<le> e then m * 10 ^ nat e else m / 10 ^ nat (- e))"

text \<open>
  The Number a decimal literal denotes. The two ends of the range of doubles are kept: a
  value that rounds beyond the largest double reads as an infinity, one that rounds below
  the smallest reads as 0; in between the value is the exact decimal.
\<close>

definition number_of_decimal :: "rat \<Rightarrow> number" where
  "number_of_decimal v =
     (if 2 ^ 1024 - 2 ^ 970 \<le> \<bar>v\<bar> then (if 0 < v then PosInf else NegInf)
      else if \<bar>v\<bar> \<le> 1 / 2 ^ 1075 then Fin 0
      else Fin v)"

text \<open>
  \<open>parseFloat(string)\<close>: leading white space is skipped, then the longest prefix that is a
  \<open>StrDecimalLiteral\<close> is read (a sign, then \<open>Infinity\<close> or digits with an optional
  fraction and exponent); without such a prefix the result is \<open>NaN\<close>.
\<close>

definition parseFloat :: "string \<Rightarrow> number" where
  "parseFloat inputString =
     (let trimmed = dropWhile isWhiteSpace inputString;
          neg = (trimmed \<noteq> [] \<and> hd trimmed = CHR ''-'');
          rest = (if trimmed \<noteq> [] \<and> (hd trimmed = CHR ''-'' \<or> hd trimmed = CHR ''+'')
                  then tl trimmed else trimmed)
      in if take 8 rest = ''Infinity'' then (if neg then NegInf else PosInf)
         else
           let ip = takeWhile isDigit rest;
               r1 = dropWhile isDigit rest;
               has_dot = (r1 \<noteq> [] \<and> hd r1 = CHR ''.'');
               fp = (if has_dot then takeWhile isDigit (tl r1) else []);
               r2 = (if has_dot then dropWhile isDigit (tl r1) else r1)
           in if ip = [] \<and> fp = [] then NaN
              else
                let v = scale10 (of_nat (digits_val (ip @ fp))) (exponent_part r2 - int (length fp))
                in number_of_decimal (if neg then - v else v))"

subsection \<open>Primitive values and objects\<close>

datatype jsval = VUndefined | VNull | VBool bool | VNum number | VStr string

text \<open>\<open>ToBoolean\<close>: the falsy values are undefined, null, false, 0, NaN and the empty string.\<close>

fun truthy :: "jsval \<Rightarrow> bool" where
  "truthy VUndefined = False"
| "truthy VNull = False"
| "truthy (VBool b) = b"
| "truthy (VNum n) = (n \<noteq> NaN \<and> n \<noteq> Fin 0)"
| "truthy (VStr s) = (s \<noteq> [])"

text \<open>\<open>a || b\<close>.\<close>

definition js_or :: "jsval \<Rightarrow> jsval \<Rightarrow> jsval" where
  "js_or a b = (if truthy a then a else b)"

text \<open>\<open>a === b\<close>: same type and same value, and \<open>NaN\<close> differs from itself.\<close>

fun strict_eq :: "jsval \<Rightarrow> jsval \<Rightarrow> bool" where
  "strict_eq (VNum a) (VNum b) = (a \<noteq> NaN \<and> a = b)"
| "strict_eq a b = (a = b)"

text \<open>
  \<open>parseFloat(v)\<close> on a value first converts it to a string. For a Number the string is
  its shortest decimal that reads back as the same Number (\<open>NaN\<close> and the infinities by
  name), so \<open>parseFloat\<close> returns the Number itself; the other primitives are spelled out.
\<close>

fun parseFloat_val :: "jsval \<Rightarrow> number" where
  "parseFloat_val (VNum n) = n"
| "parseFloat_val (VStr s) = parseFloat s"
| "parseFloat_val VUndefined = parseFloat ''undefined''"
| "parseFloat_val VNull = parseFloat ''null''"
| "parseFloat_val (VBool b) = parseFloat (if b then ''true'' else ''false'')"

text \<open>
  An object is its list of properties in insertion order; reading a property that is not
  there gives undefined.
\<close>

type_synonym obj = "(string \<times> jsval) list"

definition get_prop :: "obj \<Rightarrow> string \<Rightarrow> jsval" where
  "get_prop ob k = (case map_of ob k of None \<Rightarrow> VUndefined | Some v \<Rightarrow> v)"

section \<open>Regular expressions\<close>

text \<open>
  The patterns of the receipt scanner as syntax trees, and a backtracking matcher for the
  constructs they use. \<open>Rep lo hi r\<close> is the greedy quantifier \<open>r{lo,hi}\<close> (\<open>hi = None\<close> for
  no upper bound, so \<open>r*\<close> is \<open>Rep 0 None r\<close> and \<open>r?\<close> is \<open>Rep 0 (Some 1) r\<close>), \<open>Group\<close> is
  the capturing group (each pattern has exactly one, outside every quantifier and
  lookahead), \<open>NotAhead\<close> is \<open>(?!r)\<close>, \<open>BOL\<close> and \<open>EOL\<close> are \<open>^\<close> and \<open>$\<close>.
\<close>

datatype item = Ch char | Digits | Spaces

datatype regex =
    Eps
  | Lit char
  | CharClass "item list"
  | Seq regex regex
  | Alt regex regex
  | Rep nat "nat option" regex
  | Group regex
  | BOL
  | EOL
  | NotAhead regex

text \<open>
  Case folding under the \<open>i\<close> flag. Only ASCII letters occur in the patterns, and no other
  8-bit character folds to an ASCII letter, so folding the ASCII letters is enough.
\<close>

definition canonicalize :: "bool \<Rightarrow> char \<Rightarrow> char" where
  "canonicalize ic c =
     (if ic then
        (case map_of (zip ''abcdefghijklmnopqrstuvwxyz'' ''ABCDEFGHIJKLMNOPQRSTUVWXYZ'') c of
           None \<Rightarrow> c | Some u \<Rightarrow> u)
      else c)"

fun in_item :: "bool \<Rightarrow> char \<Rightarrow> item \<Rightarrow> bool" where
  "in_item ic c (Ch a) = (canonicalize ic a = canonicalize ic c)"
| "in_item ic c Digits = isDigit c"
| "in_item ic c Spaces = isWhiteSpace c"

definition isLineTerminator :: "char \<Rightarrow> bool" where
  "isLineTerminator c = (c = CHR 0x0A \<or> c = CHR 0x0D)"

fun rsize :: "regex \<Rightarrow> nat" where
  "rsize (Seq a b) = Suc (rsize a + rsize b)"
| "rsize (Alt a b) = Suc (rsize a + rsize b)"
| "rsize (Rep lo hi r) = Suc (rsize r)"
| "rsize (Group r) = Suc (rsize r)"
| "rsize (NotAhead r) = Suc (rsize r)"
| "rsize _ = 0"

fun rep_min :: "regex \<Rightarrow> nat" where
  "rep_min (Rep lo hi r) = lo"
| "rep_min _ = 0"

type_synonym capture = "(nat \<times> nat) option"

text \<open>
  \<open>matcher ic ml r s i c\<close> lists, in the order backtracking tries them, the states in which
  \<open>r\<close> can finish when it starts at index \<open>i\<close> of \<open>s\<close> with capture \<open>c\<close>: the end index and the
  extent of the group. The head of the list is the match the engine reports. \<open>ic\<close> and \<open>ml\<close>
  are the flags \<open>i\<close> and \<open>m\<close>. In a quantifier, an iteration beyond the required ones that
  consumes nothing is refused, as in the language definition (matching only moves
  forward inside the string, see \<open>matcher_range\<close>).
\<close>

function matcher :: "bool \<Rightarrow> bool \<Rightarrow> regex \<Rightarrow> string \<Rightarrow> nat \<Rightarrow> capture \<Rightarrow> (nat \<times> capture) list" where
  "matcher ic ml Eps s i c = [(i, c)]"
| "matcher ic ml (Lit a) s i c =
     (if i < length s \<and> canonicalize ic (s ! i) = canonicalize ic a then [(Suc i, c)] else [])"
| "matcher ic ml (CharClass its) s i c =
     (if i < length s \<and> (\<exists>it \<in> set its. in_item ic (s ! i) it) then [(Suc i, c)] else [])"
| "matcher ic ml (Seq a b) s i c =
     concat (map (\<lambda>(e, c'). matcher ic ml b s e c') (matcher ic ml a s i c))"
| "matcher ic ml (Alt a b) s i c = matcher ic ml a s i c @ matcher ic ml b s i c"
| "matcher ic ml (Rep lo hi r) s i c =
     (if hi = Some 0 then [(i, c)]
      else
        let again = concat (map (\<lambda>(e, c').
                      if lo = 0 \<and> \<not> (i < e \<and> e \<le> length s) then []
                      else matcher ic ml (Rep (lo - 1) (map_option (\<lambda>h. h - 1) hi) r) s e c')
                    (matcher ic ml r s i c))
        in if 0 < lo then again else again @ [(i, c)])"
| "matcher ic ml (Group r) s i c = map (\<lambda>(e, c'). (e, Some (i, e))) (matcher ic ml r s i c)"
| "matcher ic ml BOL s i c =
     (if i = 0 \<or> (ml \<and> isLineTerminator (s ! (i - 1))) then [(i, c)] else [])"
| "matcher ic ml EOL s i c =
     (if i = length s \<or> (ml \<and> i < length s \<and> isLineTerminator (s ! i)) then [(i, c)] else [])"
| "matcher ic ml (NotAhead r) s i c = (if matcher ic ml r s i c = [] then [(i, c)] else [])"
  by pat_completeness auto
termination
  by (relation "measures [\<lambda>(ic, ml, r, s, i, c). rsize r,
                          \<lambda>(ic, ml, r, s, i, c). rep_min r,
                          \<lambda>(ic, ml, r, s, i, c). length s - i]") auto

declare matcher.simps(6) [simp del]

lemmas matcher_Rep = matcher.simps(6)

lemma matcher_range:
  "(e, c') \<in> set (matcher ic ml r s i c) \<Longrightarrow> i \<le> length s \<Longrightarrow> i \<le> e \<and> e \<le> length s"
proof (induction ic ml r s i c arbitrary: e c' rule: matcher.induct)
  case (4 ic ml a b s i c)
  from "4.prems"(1) obtain e1 c1 where
    a: "(e1, c1) \<in> set (matcher ic ml a s i c)" and b: "(e, c') \<in> set (matcher ic ml b s e1 c1)"
    by auto
  from "4.IH"(1)[OF a "4.prems"(2)] have r1: "i \<le> e1" "e1 \<le> length s" by auto
  from "4.IH"(2)[OF a refl b r1(2)] r1 show ?case by auto
next
  case (6 ic ml lo hi r s i c)
  note mem = "6.prems"(1)[unfolded matcher_Rep[of ic ml lo hi r s i c]]
  show ?case
  proof (cases "hi = Some 0")
    case True
    with mem "6.prems"(2) show ?thesis by simp
  next
    case False
    show ?thesis
    proof (cases "(e, c') = (i, c)")
      case True
      with "6.prems"(2) show ?thesis by simp
    next
      case ne: False
      with False mem obtain e1 c1 where
        a: "(e1, c1) \<in> set (matcher ic ml r s i c)" and
        g: "\<not> (lo = 0 \<and> \<not> (i < e1 \<and> e1 \<le> length s))" and
        b: "(e, c') \<in> set (matcher ic ml (Rep (lo - 1) (map_option (\<lambda>h. h - 1) hi) r) s e1 c1)"
        by (auto simp: Let_def split: if_splits)
      from "6.IH"(1)[OF False a "6.prems"(2)] have r1: "i \<le> e1" "e1 \<le> length s" by auto
      from "6.IH"(2)[OF False a refl g b r1(2)] r1 show ?thesis by auto
    qed
  qed
qed (auto split: if_splits)

text \<open>
  So the iterations a quantifier refuses are exactly those that end where they started.
\<close>

lemma refused_iteration:
  assumes "(e, c') \<in> set (matcher ic ml r s i c)" and "i \<le> length s"
  shows "(\<not> (i < e \<and> e \<le> length s)) = (e = i)"
  using matcher_range[OF assms] by auto

subsection \<open>RegExp objects and exec\<close>

text \<open>
  A RegExp object with the \<open>g\<close> flag: its pattern, the flags \<open>i\<close> and \<open>m\<close>, and the mutable
  \<open>lastIndex\<close>. The result of \<open>exec\<close> is the match array: \<open>index\<close>, \<open>match[0]\<close> and \<open>match[1]\<close>
  (\<open>None\<close> when the group took no part in the match).
\<close>

record regexp =
  source :: regex
  ignoreCase :: bool
  multiline :: bool
  lastIndex :: nat

record match_array =
  index :: nat
  match0 :: string
  match1 :: "string option"

definition slice :: "string \<Rightarrow> nat \<Rightarrow> nat \<Rightarrow> string" where
  "slice s a b = take (b - a) (drop a s)"

text \<open>The search of \<open>exec\<close>: the first start index from \<open>i\<close> on at which the pattern matches.\<close>

function scan :: "regexp \<Rightarrow> string \<Rightarrow> nat \<Rightarrow> (nat \<times> nat \<times> capture) option" where
  "scan p s i =
     (if length s < i then None
      else (case matcher (ignoreCase p) (multiline p) (source p) s i None of
              [] \<Rightarrow> scan p s (Suc i)
            | (e, c) # _ \<Rightarrow> Some (i, e, c)))"
  by pat_completeness auto
termination
  by (relation "measure (\<lambda>(p, s, i). Suc (length s) - i)") auto

declare scan.simps [simp del]

text \<open>
  \<open>pattern.exec(text)\<close>: on a match \<open>lastIndex\<close> becomes the end of the match, on failure
  it is reset to 0 and the result is null.
\<close>

definition exec :: "regexp \<Rightarrow> string \<Rightarrow> match_array option \<times> regexp" where
  "exec p s =
     (case scan p s (lastIndex p) of
        None \<Rightarrow> (None, p\<lparr>lastIndex := 0\<rparr>)
      | Some (i, e, c) \<Rightarrow>
          (Some \<lparr>index = i, match0 = slice s i e,
                 match1 = map_option (\<lambda>(a, b). slice s a b) c\<rparr>,
           p\<lparr>lastIndex := e\<rparr>))"

lemma scan_Some:
  "scan p s i = Some (j, e, c) \<Longrightarrow>
     (e, c) \<in> set (matcher (ignoreCase p) (multiline p) (source p) s j None) \<and> i \<le> j \<and> j \<le> length s"
proof (induction p s i rule: scan.induct)
  case (1 p s i)
  note unfolded = "1.prems"[unfolded scan.simps[of p s i]]
  show ?case
  proof (cases "length s < i")
    case True
    with unfolded show ?thesis by simp
  next
    case False
    show ?thesis
    proof (cases "matcher (ignoreCase p) (multiline p) (source p) s i None")
      case Nil
      with False unfolded have "scan p s (Suc i) = Some (j, e, c)" by simp
      from "1.IH"[OF False Nil this] show ?thesis by simp
    next
      case (Cons x xs)
      with False unfolded have x: "x = (e, c)" and j: "j = i"
        by (simp_all split: prod.splits)
      from Cons x have "(e, c) \<in> set (matcher (ignoreCase p) (multiline p) (source p) s i None)"
        by simp
      with False j show ?thesis by simp
    qed
  qed
qed

lemma scan_bounds:
  assumes "scan p s i = Some (j, e, c)"
  shows "i \<le> j \<and> j \<le> e \<and> e \<le> length s"
proof -
  from scan_Some[OF assms] have
    m: "(e, c) \<in> set (matcher (ignoreCase p) (multiline p) (source p) s j None)"
    and b: "i \<le> j" "j \<le> length s" by simp_all
  from matcher_range[OF m b(2)] b show ?thesis by simp
qed

lemma exec_lastIndex_le:
  assumes "exec p s = (Some ma, p')"
  shows "lastIndex p' \<le> length s"
proof (cases "scan p s (lastIndex p)")
  case None
  with assms show ?thesis by (simp add: exec_def)
next
  case (Some t)
  obtain j e c where t: "t = (j, e, c)" by (cases t) auto
  from Some t assms have "lastIndex p' = e" by (auto simp: exec_def)
  with scan_bounds[OF Some[unfolded t]] show ?thesis by simp
qed

section \<open>The receipt scanner: extracting amounts\<close>

subsection \<open>Set and Array.prototype.sort\<close>

text \<open>
  A \<open>Set\<close> of Numbers is the list of its members in insertion order; \<open>add\<close> leaves the set
  alone when the value is already a member (same-value-zero equality, which on the
  modelled Numbers is equality).
\<close>

definition Set_add :: "number list \<Rightarrow> number \<Rightarrow> number list" where
  "Set_add members x = (if x \<in> set members then members else members @ [x])"

text \<open>
  \<open>array.sort(compareFn)\<close> as a stable insertion sort: \<open>x\<close> is moved behind \<open>y\<close> only when
  \<open>compareFn(x, y) > 0\<close>. For a consistent comparison function every sorting algorithm
  of an engine returns this list.
\<close>

fun insert_sorted :: "('a \<Rightarrow> 'a \<Rightarrow> number) \<Rightarrow> 'a \<Rightarrow> 'a list \<Rightarrow> 'a list" where
  "insert_sorted compareFn x [] = [x]"
| "insert_sorted compareFn x (y # ys) =
     (if nlt (Fin 0) (compareFn x y) then y # insert_sorted compareFn x ys else x # y # ys)"

definition Array_sort :: "('a \<Rightarrow> 'a \<Rightarrow> number) \<Rightarrow> 'a list \<Rightarrow> 'a list" where
  "Array_sort compareFn xs = foldr (insert_sorted compareFn) xs []"

subsection \<open>The four patterns\<close>

fun seq :: "regex list \<Rightarrow> regex" where
  "seq [] = Eps"
| "seq [r] = r"
| "seq (r # rs) = Seq r (seq rs)"

text \<open>\<open>\d\<close>, \<open>\s\<close>, a literal word, and the thousands groups \<open>(?:,\d{3})*\<close>.\<close>

definition digit :: regex where
  "digit = CharClass [Digits]"

definition space :: regex where
  "space = CharClass [Spaces]"

definition word :: "string \<Rightarrow> regex" where
  "word w = seq (map Lit w)"

definition thousands :: regex where
  "thousands = Rep 0 None (Seq (Lit CHR '','') (Rep 3 (Some 3) digit))"

text \<open>\<^verbatim>\<open>/\$(\d{1,3}(?:,\d{3})*\.\d{2})/g\<close>\<close>

definition pattern1 :: regexp where
  "pattern1 =
     \<lparr>source = seq [Lit CHR ''$'',
                     Group (seq [Rep 1 (Some 3) digit, thousands, Lit CHR ''.'', Rep 2 (Some 2) digit])],
      ignoreCase = False, multiline = False, lastIndex = 0\<rparr>"

text \<open>\<^verbatim>\<open>/\$(\d{1,3}(?:,\d{3})*)(?!\.\d)/g\<close>\<close>

definition pattern2 :: regexp where
  "pattern2 =
     \<lparr>source = seq [Lit CHR ''$'',
                     Group (seq [Rep 1 (Some 3) digit, thousands]),
                     NotAhead (Seq (Lit CHR ''.'') digit)],
      ignoreCase = False, multiline = False, lastIndex = 0\<rparr>"

text \<open>\<^verbatim>\<open>/(?:^|\s)(\d{1,4}\.\d{2})(?:\s|$)/gm\<close>\<close>

definition pattern3 :: regexp where
  "pattern3 =
     \<lparr>source = seq [Alt BOL space,
                     Group (seq [Rep 1 (Some 4) digit, Lit CHR ''.'', Rep 2 (Some 2) digit]),
                     Alt space EOL],
      ignoreCase = False, multiline = True, lastIndex = 0\<rparr>"

text \<open>\<^verbatim>\<open>/(?:total|subtotal|amount|due)[\s:]*\$?(\d{1,4}(?:,\d{3})*\.?\d{0,2})/gi\<close>\<close>

definition pattern4 :: regexp where
  "pattern4 =
     \<lparr>source = seq [Alt (word ''total'') (Alt (word ''subtotal'') (Alt (word ''amount'') (word ''due''))),
                     Rep 0 None (CharClass [Spaces, Ch CHR '':'']),
                     Rep 0 (Some 1) (Lit CHR ''$''),
                     Group (seq [Rep 1 (Some 4) digit, thousands,
                                 Rep 0 (Some 1) (Lit CHR ''.''), Rep 0 (Some 2) digit])],
      ignoreCase = True, multiline = False, lastIndex = 0\<rparr>"

subsection \<open>extractAmountsFromText\<close>

text \<open>
  The ways a call can fail to return a list: a \<open>TypeError\<close> (reading \<open>match[1].replace\<close>
  when the group is undefined), and a \<open>while\<close> loop that never ends (an \<open>exec\<close> that does
  not move \<open>lastIndex\<close> forward finds the same match again for ever).
\<close>

datatype error = TypeError | NonTermination

text \<open>\<^verbatim>\<open>match[1].replace(/,/g, '')\<close>\<close>

definition remove_commas :: "string \<Rightarrow> string" where
  "remove_commas g = filter (\<lambda>ch. ch \<noteq> CHR '','') g"

text \<open>
  The \<open>while ((match = pattern.exec(text)) !== null)\<close> loop for one pattern object. The
  state of the object after the loop is returned with the result.
\<close>

function exec_loop :: "regexp \<Rightarrow> string \<Rightarrow> number list \<Rightarrow> (error + number list) \<times> regexp" where
  "exec_loop pattern text amounts =
     (case exec pattern text of
        (None, pattern') \<Rightarrow> (Inr amounts, pattern')
      | (Some match, pattern') \<Rightarrow>
          (case match1 match of
             None \<Rightarrow> (Inl TypeError, pattern')
           | Some g \<Rightarrow>
               let amount = remove_commas g;
                   numAmount = parseFloat amount;
                   amounts' = (if \<not> isNaN numAmount \<and> nlt (Fin 0) numAmount \<and> nlt numAmount (Fin 10000)
                               then Set_add amounts numAmount else amounts)
               in if lastIndex pattern' \<le> lastIndex pattern then (Inl NonTermination, pattern')
                  else exec_loop pattern' text amounts'))"
  by pat_completeness auto
termination
proof (relation "measure (\<lambda>(pattern, text, amounts). length text - lastIndex pattern)", goal_cases)
  case 1
  show ?case by simp
next
  case (2 pattern s amounts res pattern' ma g amount numAmount amounts')
  from 2(1,2) have "exec pattern s = (Some ma, pattern')" by simp
  from exec_lastIndex_le[OF this] 2 show ?case by simp
qed

declare exec_loop.simps [simp del]

text \<open>\<open>patterns.forEach(pattern => ...)\<close>, threading the set of amounts.\<close>

fun forEach :: "regexp list \<Rightarrow> string \<Rightarrow> number list \<Rightarrow> (error + number list) \<times> regexp list" where
  "forEach [] text amounts = (Inr amounts, [])"
| "forEach (pattern # rest) text amounts =
     (case exec_loop pattern text amounts of
        (Inl err, pattern') \<Rightarrow> (Inl err, pattern' # rest)
      | (Inr amounts', pattern') \<Rightarrow>
          (case forEach rest text amounts' of (res, rest') \<Rightarrow> (res, pattern' # rest')))"

text \<open>
  The heap holds every RegExp object allocated so far, each with its current
  \<open>lastIndex\<close>. A call evaluates the four pattern literals, which allocates four new
  objects with \<open>lastIndex = 0\<close>; they are left on the heap when the call returns.
\<close>

type_synonym heap = "regexp list"

definition extractAmountsFromText :: "heap \<Rightarrow> string \<Rightarrow> (error + number list) \<times> heap" where
  "extractAmountsFromText heap text =
     (let amounts = [];
          patterns = [pattern1, pattern2, pattern3, pattern4]
      in case forEach patterns text amounts of
           (Inl err, patterns') \<Rightarrow> (Inl err, heap @ patterns')
         | (Inr amounts', patterns') \<Rightarrow>
             (Inr (Array_sort (\<lambda>a b. nsub b a) amounts'), heap @ patterns'))"

section \<open>The receipt scanner: the expense list\<close>

subsection \<open>JSON and AsyncStorage\<close>

text \<open>
  The only text the app stores is \<open>JSON.stringify\<close> of a list of flat records, so a stored
  JSON text is represented by the document it denotes: an array of objects whose members
  are JSON primitives. \<open>JSON.stringify\<close> leaves out a property whose value is undefined
  and writes \<open>null\<close> for \<open>NaN\<close> and the infinities; \<open>JSON.parse\<close> reads the document back.
\<close>

datatype json = JNull | JBool bool | JNumber rat | JString string

type_synonym json_text = "(string \<times> json) list list"

fun SerializeJSONProperty :: "jsval \<Rightarrow> json option" where
  "SerializeJSONProperty VUndefined = None"
| "SerializeJSONProperty VNull = Some JNull"
| "SerializeJSONProperty (VBool b) = Some (JBool b)"
| "SerializeJSONProperty (VNum (Fin r)) = Some (JNumber r)"
| "SerializeJSONProperty (VNum n) = Some JNull"
| "SerializeJSONProperty (VStr s) = Some (JString s)"

definition SerializeJSONObject :: "obj \<Rightarrow> (string \<times> json) list" where
  "SerializeJSONObject ob =
     List.map_filter (\<lambda>(k, v). map_option (\<lambda>j. (k, j)) (SerializeJSONProperty v)) ob"

definition JSON_stringify :: "obj list \<Rightarrow> json_text" where
  "JSON_stringify expenseList = map SerializeJSONObject expenseList"

fun parse_value :: "json \<Rightarrow> jsval" where
  "parse_value JNull = VNull"
| "parse_value (JBool b) = VBool b"
| "parse_value (JNumber r) = VNum (Fin r)"
| "parse_value (JString s) = VStr s"

definition JSON_parse :: "json_text \<Rightarrow> obj list" where
  "JSON_parse doc = map (map (\<lambda>(k, j). (k, parse_value j))) doc"

subsection \<open>The state of the component\<close>

text \<open>
  The three calls of \<open>Alert.alert\<close> in \<open>addExpense\<close>, with the values they interpolate
  into their message: the invalid-amount error, the confirmation dialog (amount and
  merchant name) and the success message (amount).
\<close>

datatype alert = InvalidAmount | AddExpenseDialog number string | Success number

text \<open>
  The React state of \<open>App\<close> (one field per \<open>useState\<close>), the contents of AsyncStorage and
  the alerts shown so far. AsyncStorage is taken to be reliable: \<open>getItem\<close> and \<open>setItem\<close>
  do not reject, so the \<open>catch\<close> blocks of \<open>loadExpenses\<close> and \<open>saveExpenses\<close>, which only
  log, are not entered. \<open>receiptPhoto\<close> is null (\<open>None\<close>) or the URI of the picked image.
\<close>

record app =
  receiptPhoto :: "string option"
  extractedText :: string
  detectedAmounts :: "number list"
  selectedAmount :: string
  merchant :: string
  expenses :: "obj list"
  totalSpent :: number
  isProcessing :: bool
  storage :: "string \<rightharpoonup> json_text"
  alerts :: "alert list"

text \<open>What a call reads from its environment: the clock and the locale's date string.\<close>

record env =
  now :: nat
  localeDateString :: string

text \<open>The button the user presses in the confirmation dialog.\<close>

datatype button = Cancel | Add

subsection \<open>calculateTotal, loadExpenses, saveExpenses\<close>

definition calculateTotal :: "obj list \<Rightarrow> app \<Rightarrow> app" where
  "calculateTotal expenseList st =
     (let total = foldl (\<lambda>sum expense.
                    nadd sum (parseFloat_val (js_or (get_prop expense ''amount'') (VNum (Fin 0)))))
                  (Fin 0) expenseList
      in st\<lparr>totalSpent := total\<rparr>)"

definition loadExpenses :: "app \<Rightarrow> app" where
  "loadExpenses st =
     (case storage st ''expenses'' of
        None \<Rightarrow> st
      | Some savedExpenses \<Rightarrow>
          let expenseList = JSON_parse savedExpenses
          in calculateTotal expenseList (st\<lparr>expenses := expenseList\<rparr>))"

definition saveExpenses :: "obj list \<Rightarrow> app \<Rightarrow> app" where
  "saveExpenses expenseList st =
     st\<lparr>storage := (storage st)(''expenses'' \<mapsto> JSON_stringify expenseList)\<rparr>"

subsection \<open>addExpense and deleteExpense\<close>

text \<open>\<open>Date.now().toString()\<close>: the decimal digits of a natural number.\<close>

fun nat_toString :: "nat \<Rightarrow> string" where
  "nat_toString n =
     (if n < 10 then [''0123456789'' ! n]
      else nat_toString (n div 10) @ [''0123456789'' ! (n mod 10)])"

declare nat_toString.simps [simp del]

definition clearForm :: "app \<Rightarrow> app" where
  "clearForm st =
     st\<lparr>receiptPhoto := None, extractedText := [], detectedAmounts := [],
        selectedAmount := [], merchant := []\<rparr>"

text \<open>
  \<open>addExpense\<close> validates the selected amount and shows the confirmation dialog; when the
  user presses Add, the \<open>onPress\<close> callback builds the record, appends it, recomputes the
  total, saves the list, reports success and clears the form.
\<close>

definition addExpense :: "env \<Rightarrow> button \<Rightarrow> app \<Rightarrow> app" where
  "addExpense ev pressed st =
     (let amount = parseFloat (selectedAmount st)
      in if selectedAmount st = [] \<or> isNaN amount \<or> nle amount (Fin 0)
         then st\<lparr>alerts := alerts st @ [InvalidAmount]\<rparr>
         else
           let merchantName = (if merchant st \<noteq> [] then merchant st else ''Unknown Merchant'');
               st1 = st\<lparr>alerts := alerts st @ [AddExpenseDialog amount merchantName]\<rparr>
           in (case pressed of
                 Cancel \<Rightarrow> st1
               | Add \<Rightarrow>
                   let newExpense =
                         [(''id'', VStr (nat_toString (now ev))),
                          (''amount'', VNum amount),
                          (''merchant'', VStr merchantName),
                          (''date'', VStr (localeDateString ev)),
                          (''photo'', (case receiptPhoto st of None \<Rightarrow> VNull | Some uri \<Rightarrow> VStr uri)),
                          (''extractedText'', VStr (extractedText st))];
                       updatedExpenses = expenses st @ [newExpense];
                       st2 = st1\<lparr>expenses := updatedExpenses\<rparr>;
                       st3 = calculateTotal updatedExpenses st2;
                       st4 = saveExpenses updatedExpenses st3;
                       st5 = st4\<lparr>alerts := alerts st4 @ [Success amount]\<rparr>
                   in clearForm st5))"

definition deleteExpense :: "jsval \<Rightarrow> app \<Rightarrow> app" where
  "deleteExpense expenseId st =
     (let updatedExpenses = filter (\<lambda>expense. \<not> strict_eq (get_prop expense ''id'') expenseId) (expenses st);
          st1 = st\<lparr>expenses := updatedExpenses\<rparr>;
          st2 = calculateTotal updatedExpenses st1
      in saveExpenses updatedExpenses st2)"

section \<open>The anime converter: the inference pipeline\<close>

text \<open>
  A tensor of the inference runtime: its element type, its data and its shape. The
  elements are exact rationals (the rounding to 32-bit floats is not represented).
\<close>

record tensor =
  dtype :: string
  tdata :: "rat list"
  dims :: "nat list"

text \<open>A thrown \<open>Error\<close> with its message.\<close>

datatype exn = Error (message: string)

text \<open>
  The loaded model. \<open>run\<close> is the opaque inference runtime: from the feeds it returns the
  named output tensors, or rejects with a message.
\<close>

record inference_session =
  inputNames :: "string list"
  outputNames :: "string list"
  run :: "(string \<times> tensor) list \<Rightarrow> string + (string \<times> tensor) list"

text \<open>
  What the pipeline can see and change: the files on the device (the bytes of the image
  at each path), the values \<open>Math.random()\<close> returns one after the other and how many of
  them have been drawn, the React state of the component (\<open>session\<close>, \<open>originalPhoto\<close>,
  \<open>processedPhoto\<close>, and \<open>isProcessing\<close>, here \<open>processing\<close>), and the alerts shown (title
  and message).
\<close>

record world =
  files :: "string \<rightharpoonup> nat list"
  math_random :: "nat \<Rightarrow> rat"
  drawn :: nat
  session :: "inference_session option"
  originalPhoto :: "string option"
  processedPhoto :: "string option"
  processing :: bool
  shown :: "(string \<times> string) list"

text \<open>
  The loop that fills \<open>imageData\<close>: element \<open>i\<close> is \<open>(Math.random() - 0.5) * 2\<close> for the next
  random value.
\<close>

definition random_data :: "world \<Rightarrow> nat \<Rightarrow> rat list" where
  "random_data w n = map (\<lambda>i. (math_random w (drawn w + i) - 1 / 2) * 2) [0..<n]"

text \<open>Nothing in the body of \<open>preprocessImage\<close> throws, so its \<open>catch\<close> block is not entered.\<close>

definition preprocessImage :: "world \<Rightarrow> string \<Rightarrow> (exn + tensor) \<times> world" where
  "preprocessImage w imagePath =
     (let inputSize = 224;
          channels = 3;
          batchSize = 1;
          n = batchSize * channels * inputSize * inputSize;
          imageData = random_data w n;
          inputTensor = \<lparr>dtype = ''float32'', tdata = imageData,
                         dims = [batchSize, channels, inputSize, inputSize]\<rparr>
      in (Inr inputTensor, w\<lparr>drawn := drawn w + n\<rparr>))"

text \<open>\<open>names[0]\<close> when it is truthy: the first name, unless there is none or it is empty.\<close>

definition first_name :: "string list \<Rightarrow> string option" where
  "first_name names = (case names of [] \<Rightarrow> None | n # _ \<Rightarrow> if n \<noteq> [] then Some n else None)"

text \<open>
  \<open>processImageWithAI\<close>. Without a session it throws before the \<open>try\<close>. Inside the \<open>try\<close>
  every error is rethrown as \<open>AI processing failed: ...\<close>, and the \<open>finally\<close> block resets
  \<open>isProcessing\<close> on every path. The results of \<open>run\<close> are an object, here the list of its
  properties; reading it with the key undefined reads the property named \<open>undefined\<close>.
\<close>

definition processImageWithAI :: "world \<Rightarrow> string \<Rightarrow> (exn + string) \<times> world" where
  "processImageWithAI w imagePath =
     (case session w of
        None \<Rightarrow> (Inl (Error ''AI model not loaded''), w)
      | Some sess \<Rightarrow>
          let w1 = w\<lparr>processing := True\<rparr>
          in (case preprocessImage w1 imagePath of
                (Inl err, w2) \<Rightarrow>
                  (Inl (Error (''AI processing failed: '' @ message err)), w2\<lparr>processing := False\<rparr>)
              | (Inr inputTensor, w2) \<Rightarrow>
                  let inputName = (case first_name (inputNames sess) of None \<Rightarrow> ''input'' | Some n \<Rightarrow> n);
                      feeds = [(inputName, inputTensor)]
                  in (case run sess feeds of
                        Inl msg \<Rightarrow>
                          (Inl (Error (''AI processing failed: '' @ msg)), w2\<lparr>processing := False\<rparr>)
                      | Inr results \<Rightarrow>
                          let outputName =
                                (case first_name (outputNames sess) of
                                   Some n \<Rightarrow> Some n
                                 | None \<Rightarrow> (case results of [] \<Rightarrow> None | (k, _) # _ \<Rightarrow> Some k));
                              outputTensor =
                                map_of results (case outputName of None \<Rightarrow> ''undefined'' | Some k \<Rightarrow> k)
                          in (case outputTensor of
                                None \<Rightarrow>
                                  (Inl (Error (''AI processing failed: '' @ ''No output received from model'')),
                                   w2\<lparr>processing := False\<rparr>)
                              | Some _ \<Rightarrow> (Inr imagePath, w2\<lparr>processing := False\<rparr>)))))"

text \<open>\<open>processCurrentPhoto\<close>: process the current photo and keep the returned path.\<close>

definition processCurrentPhoto :: "world \<Rightarrow> world" where
  "processCurrentPhoto w =
     (case originalPhoto w of
        None \<Rightarrow> w\<lparr>shown := shown w @ [(''No Photo'', ''Please take or select a photo first'')]\<rparr>
      | Some photo \<Rightarrow>
          if photo = [] then
            w\<lparr>shown := shown w @ [(''No Photo'', ''Please take or select a photo first'')]\<rparr>
          else
            (case session w of
               None \<Rightarrow> w\<lparr>shown := shown w @ [(''Model Not Ready'', ''AI model is still loading'')]\<rparr>
             | Some _ \<Rightarrow>
                 (case processImageWithAI w photo of
                    (Inr processedPath, w') \<Rightarrow>
                      w'\<lparr>processedPhoto := Some processedPath,
                         shown := shown w' @ [(''Success!'', ''Photo processed with anime style'')]\<rparr>
                  | (Inl err, w') \<Rightarrow>
                      w'\<lparr>shown := shown w' @ [(''Processing Error'', message err)]\<rparr>)))"

section \<open>Properties of extractAmountsFromText\<close>

text \<open>
  Two facts about a pattern that are read off its syntax: every match sets the capturing
  group, and every match consumes at least one character.
\<close>

fun sets_group :: "regex \<Rightarrow> bool" where
  "sets_group (Group r) = True"
| "sets_group (Seq a b) = (sets_group a \<or> sets_group b)"
| "sets_group (Alt a b) = (sets_group a \<and> sets_group b)"
| "sets_group _ = False"

fun min_len :: "regex \<Rightarrow> nat" where
  "min_len (Lit a) = 1"
| "min_len (CharClass its) = 1"
| "min_len (Seq a b) = min_len a + min_len b"
| "min_len (Alt a b) = min (min_len a) (min_len b)"
| "min_len (Rep lo hi r) = (if 0 < lo \<and> hi \<noteq> Some 0 then min_len r else 0)"
| "min_len (Group r) = min_len r"
| "min_len _ = 0"

lemma matcher_capture_kept:
  "(e, c') \<in> set (matcher ic ml r s i c) \<Longrightarrow> c \<noteq> None \<Longrightarrow> c' \<noteq> None"
proof (induction ic ml r s i c arbitrary: e c' rule: matcher.induct)
  case (4 ic ml a b s i c)
  from "4.prems"(1) obtain e1 c1 where
    a: "(e1, c1) \<in> set (matcher ic ml a s i c)" and b: "(e, c') \<in> set (matcher ic ml b s e1 c1)"
    by auto
  from "4.IH"(1)[OF a "4.prems"(2)] have "c1 \<noteq> None" .
  from "4.IH"(2)[OF a refl b this] show ?case .
next
  case (6 ic ml lo hi r s i c)
  note mem = "6.prems"(1)[unfolded matcher_Rep[of ic ml lo hi r s i c]]
  show ?case
  proof (cases "hi = Some 0 \<or> (e, c') = (i, c)")
    case True
    with mem "6.prems"(2) show ?thesis by auto
  next
    case False
    with mem obtain e1 c1 where
      a: "(e1, c1) \<in> set (matcher ic ml r s i c)" and
      g: "\<not> (lo = 0 \<and> \<not> (i < e1 \<and> e1 \<le> length s))" and
      b: "(e, c') \<in> set (matcher ic ml (Rep (lo - 1) (map_option (\<lambda>h. h - 1) hi) r) s e1 c1)"
      by (auto simp: Let_def split: if_splits)
    from False have h: "hi \<noteq> Some 0" by simp
    from "6.IH"(1)[OF h a "6.prems"(2)] have "c1 \<noteq> None" .
    from "6.IH"(2)[OF h a refl g b this] show ?thesis .
  qed
qed (auto split: if_splits)

lemma matcher_sets_group:
  "(e, c') \<in> set (matcher ic ml r s i c) \<Longrightarrow> sets_group r \<Longrightarrow> c' \<noteq> None"
proof (induction r arbitrary: e c' i c)
  case (Seq a b)
  from Seq.prems(1) obtain e1 c1 where
    a: "(e1, c1) \<in> set (matcher ic ml a s i c)" and b: "(e, c') \<in> set (matcher ic ml b s e1 c1)"
    by auto
  show ?case
  proof (cases "sets_group a")
    case True
    from Seq.IH(1)[OF a True] have "c1 \<noteq> None" .
    from matcher_capture_kept[OF b this] show ?thesis .
  next
    case False
    with Seq.prems(2) have "sets_group b" by simp
    from Seq.IH(2)[OF b this] show ?thesis .
  qed
qed auto

lemma matcher_min_len:
  "(e, c') \<in> set (matcher ic ml r s i c) \<Longrightarrow> i + min_len r \<le> e"
proof (induction ic ml r s i c arbitrary: e c' rule: matcher.induct)
  case (4 ic ml a b s i c)
  from "4.prems"(1) obtain e1 c1 where
    a: "(e1, c1) \<in> set (matcher ic ml a s i c)" and b: "(e, c') \<in> set (matcher ic ml b s e1 c1)"
    by auto
  from "4.IH"(1)[OF a] "4.IH"(2)[OF a refl b] show ?case by simp
next
  case (6 ic ml lo hi r s i c)
  note mem = "6.prems"(1)[unfolded matcher_Rep[of ic ml lo hi r s i c]]
  show ?case
  proof (cases "0 < lo \<and> hi \<noteq> Some 0")
    case False
    show ?thesis
    proof (cases "hi = Some 0 \<or> (e, c') = (i, c)")
      case True
      with mem False show ?thesis by auto
    next
      case ne: False
      with mem obtain e1 c1 where
        a: "(e1, c1) \<in> set (matcher ic ml r s i c)" and
        g: "\<not> (lo = 0 \<and> \<not> (i < e1 \<and> e1 \<le> length s))" and
        b: "(e, c') \<in> set (matcher ic ml (Rep (lo - 1) (map_option (\<lambda>h. h - 1) hi) r) s e1 c1)"
        by (auto simp: Let_def split: if_splits)
      from ne have h: "hi \<noteq> Some 0" by simp
      from "6.IH"(1)[OF h a] "6.IH"(2)[OF h a refl g b] False show ?thesis by simp
    qed
  next
    case True
    then have h: "hi \<noteq> Some 0" by simp
    from True mem obtain e1 c1 where
      a: "(e1, c1) \<in> set (matcher ic ml r s i c)" and
      g: "\<not> (lo = 0 \<and> \<not> (i < e1 \<and> e1 \<le> length s))" and
      b: "(e, c') \<in> set (matcher ic ml (Rep (lo - 1) (map_option (\<lambda>h. h - 1) hi) r) s e1 c1)"
      by (auto simp: Let_def split: if_splits)
    from "6.IH"(1)[OF h a] "6.IH"(2)[OF h a refl g b] True show ?thesis by simp
  qed
next
  case (5 ic ml a b s i c)
  from "5.prems" have "(e, c') \<in> set (matcher ic ml a s i c) \<or> (e, c') \<in> set (matcher ic ml b s i c)"
    by simp
  then show ?case
  proof
    assume "(e, c') \<in> set (matcher ic ml a s i c)"
    from "5.IH"(1)[OF this] show ?thesis by simp
  next
    assume "(e, c') \<in> set (matcher ic ml b s i c)"
    from "5.IH"(2)[OF this] show ?thesis by simp
  qed
qed (auto split: if_splits)

definition good :: "regexp \<Rightarrow> bool" where
  "good p = (sets_group (source p) \<and> 0 < min_len (source p))"

lemma good_patterns: "good pattern1" "good pattern2" "good pattern3" "good pattern4"
  by (simp_all add: good_def pattern1_def pattern2_def pattern3_def pattern4_def word_def
        digit_def space_def thousands_def)

lemma exec_good:
  assumes "exec p s = (Some ma, p')" and "good p"
  shows "match1 ma \<noteq> None \<and> lastIndex p < lastIndex p' \<and> good p'"
proof (cases "scan p s (lastIndex p)")
  case None
  with assms show ?thesis by (simp add: exec_def)
next
  case (Some t)
  obtain j e c where t: "t = (j, e, c)" by (cases t) auto
  from Some t assms(1) have ma: "match1 ma = map_option (\<lambda>(a, b). slice s a b) c"
    and p': "p' = p\<lparr>lastIndex := e\<rparr>" by (auto simp: exec_def)
  from scan_Some[OF Some[unfolded t]] have
    mem: "(e, c) \<in> set (matcher (ignoreCase p) (multiline p) (source p) s j None)"
    and j: "lastIndex p \<le> j" by simp_all
  from matcher_sets_group[OF mem] assms(2) have "c \<noteq> None" by (simp add: good_def)
  moreover from matcher_min_len[OF mem] assms(2) j have "lastIndex p < e" by (simp add: good_def)
  ultimately show ?thesis using ma p' assms(2) by (simp add: good_def)
qed

definition in_range :: "number \<Rightarrow> bool" where
  "in_range a = (\<not> isNaN a \<and> nlt (Fin 0) a \<and> nlt a (Fin 10000))"

lemma exec_loop_good:
  "good p \<Longrightarrow> distinct amounts \<Longrightarrow> list_all in_range amounts \<Longrightarrow>
     \<exists>amounts' p'. exec_loop p s amounts = (Inr amounts', p') \<and> lastIndex p' = 0
        \<and> distinct amounts' \<and> list_all in_range amounts'"
proof (induction p s amounts rule: exec_loop.induct)
  case (1 pattern s amounts)
  obtain res pattern' where ex: "exec pattern s = (res, pattern')" by (cases "exec pattern s") auto
  show ?case
  proof (cases res)
    case None
    with ex have "pattern' = pattern\<lparr>lastIndex := 0\<rparr>"
      by (auto simp: exec_def split: option.splits)
    with None ex "1.prems" show ?thesis
      by (simp add: exec_loop.simps[of pattern s amounts])
  next
    case (Some ma)
    from exec_good[OF ex[unfolded Some] "1.prems"(1)] obtain g where
      g: "match1 ma = Some g" and lt: "lastIndex pattern < lastIndex pattern'" and gd: "good pattern'"
      by auto
    define amounts' where "amounts' =
      (if \<not> isNaN (parseFloat (remove_commas g)) \<and> nlt (Fin 0) (parseFloat (remove_commas g))
            \<and> nlt (parseFloat (remove_commas g)) (Fin 10000)
       then Set_add amounts (parseFloat (remove_commas g)) else amounts)"
    have d: "distinct amounts'" and r: "list_all in_range amounts'"
      using "1.prems"(2,3) by (auto simp: amounts'_def Set_add_def list_all_iff in_range_def)
    have step: "exec_loop pattern s amounts = exec_loop pattern' s amounts'"
      using ex Some g lt
      by (simp add: exec_loop.simps[of pattern s amounts] amounts'_def Let_def)
    from lt have nle: "\<not> lastIndex pattern' \<le> lastIndex pattern" by simp
    note IH = "1.IH"[OF ex[symmetric] Some g refl refl refl nle gd, folded amounts'_def]
    from IH[OF d r] step show ?thesis by simp
  qed
qed


lemma forEach_good:
  "list_all good ps \<Longrightarrow> distinct amounts \<Longrightarrow> list_all in_range amounts \<Longrightarrow>
     \<exists>amounts' ps'. forEach ps s amounts = (Inr amounts', ps')
        \<and> distinct amounts' \<and> list_all in_range amounts'"
proof (induction ps arbitrary: amounts)
  case Nil
  then show ?case by simp
next
  case (Cons p ps)
  from Cons.prems have "good p" by simp
  from exec_loop_good[OF this Cons.prems(2,3)] obtain a1 p' where
    l: "exec_loop p s amounts = (Inr a1, p')" and d: "distinct a1" and r: "list_all in_range a1"
    by blast
  from Cons.prems(1) have "list_all good ps" by simp
  from Cons.IH[OF this d r] obtain a2 ps' where
    "forEach ps s a1 = (Inr a2, ps')" "distinct a2" "list_all in_range a2" by blast
  with l show ?case by simp
qed

lemma in_range_Fin: "in_range a \<Longrightarrow> \<exists>r. a = Fin r \<and> 0 < r \<and> r < 10000"
  by (cases a) (simp_all add: in_range_def isNaN_def)

lemma set_insert_sorted: "set (insert_sorted f x ys) = insert x (set ys)"
  by (induction ys) auto

lemma set_Array_sort: "set (Array_sort f xs) = set xs"
  by (induction xs) (simp_all add: Array_sort_def set_insert_sorted)

lemma distinct_insert_sorted:
  "distinct (insert_sorted f x ys) = (x \<notin> set ys \<and> distinct ys)"
  by (induction ys) (auto simp: set_insert_sorted)

lemma distinct_Array_sort: "distinct (Array_sort f xs) = distinct xs"
proof (induction xs)
  case Nil
  show ?case by (simp add: Array_sort_def)
next
  case (Cons x xs)
  have "Array_sort f (x # xs) = insert_sorted f x (Array_sort f xs)"
    by (simp add: Array_sort_def)
  with Cons show ?case by (simp add: distinct_insert_sorted set_Array_sort)
qed

text \<open>The comparison function \<open>(a, b) => b - a\<close> is positive exactly when \<open>a < b\<close>.\<close>

lemma compare_descending: "nlt (Fin 0) (nsub (Fin b) (Fin a)) = (a < b)"
  by (simp add: nsub_def overflow_def)

lemma insert_sorted_descending:
  assumes "\<forall>a \<in> set (x # ys). \<exists>r. a = Fin r" and "x \<notin> set ys"
    and "sorted_wrt (\<lambda>a b. nlt b a) ys"
  shows "sorted_wrt (\<lambda>a b. nlt b a) (insert_sorted (\<lambda>a b. nsub b a) x ys)"
  using assms
proof (induction ys)
  case Nil
  then show ?case by simp
next
  case (Cons y ys)
  from Cons.prems(1) obtain rx ry where x: "x = Fin rx" and y: "y = Fin ry" by auto
  from Cons.prems(2) x y have ne: "rx \<noteq> ry" by auto
  show ?case
  proof (cases "rx < ry")
    case True
    from Cons.prems have "sorted_wrt (\<lambda>a b. nlt b a) (insert_sorted (\<lambda>a b. nsub b a) x ys)"
      by (intro Cons.IH) auto
    moreover from Cons.prems(3) True x y
    have "\<forall>z \<in> set (insert_sorted (\<lambda>a b. nsub b a) x ys). nlt z y"
      by (auto simp: set_insert_sorted)
    ultimately show ?thesis using True x y by (simp add: compare_descending)
  next
    case False
    with ne have lt: "ry < rx" by simp
    have "\<forall>z \<in> set ys. nlt z x"
    proof
      fix z assume z: "z \<in> set ys"
      with Cons.prems(1) obtain rz where rz: "z = Fin rz" by auto
      from z Cons.prems(3) have "nlt z y" by simp
      with rz y x lt show "nlt z x" by simp
    qed
    with False lt x y Cons.prems(3) show ?thesis by (simp add: compare_descending)
  qed
qed

lemma Array_sort_descending:
  "\<forall>a \<in> set xs. \<exists>r. a = Fin r \<Longrightarrow> distinct xs \<Longrightarrow>
     sorted_wrt (\<lambda>a b. nlt b a) (Array_sort (\<lambda>a b. nsub b a) xs)"
proof (induction xs)
  case Nil
  then show ?case by (simp add: Array_sort_def)
next
  case (Cons x xs)
  from Cons have s: "sorted_wrt (\<lambda>a b. nlt b a) (Array_sort (\<lambda>a b. nsub b a) xs)" by simp
  have "sorted_wrt (\<lambda>a b. nlt b a)
          (insert_sorted (\<lambda>a b. nsub b a) x (Array_sort (\<lambda>a b. nsub b a) xs))"
    using Cons.prems s by (intro insert_sorted_descending) (auto simp: set_Array_sort)
  then show ?case by (simp add: Array_sort_def)
qed

lemma forEach_patterns:
  "\<exists>amounts ps. forEach [pattern1, pattern2, pattern3, pattern4] s [] = (Inr amounts, ps)
      \<and> distinct amounts \<and> list_all in_range amounts"
  by (rule forEach_good) (simp_all add: good_patterns)

lemma extract_returns:
  "\<exists>amounts. fst (extractAmountsFromText heap s) = Inr (Array_sort (\<lambda>a b. nsub b a) amounts)
      \<and> distinct amounts \<and> list_all in_range amounts"
proof -
  from forEach_patterns[of s] obtain amounts ps where
    "forEach [pattern1, pattern2, pattern3, pattern4] s [] = (Inr amounts, ps)"
    "distinct amounts" "list_all in_range amounts" by blast
  then show ?thesis by (auto simp: extractAmountsFromText_def)
qed

text \<open>
  Claim C1. For every input text (and whatever the heap holds), \<open>extractAmountsFromText\<close>
  returns a list, and that list is strictly decreasing: each amount is numerically
  smaller than every amount before it, so the list is in descending order and no amount
  occurs twice.
\<close>

theorem extractAmountsFromText_strictly_decreasing:
  "\<exists>amounts. fst (extractAmountsFromText heap s) = Inr amounts
      \<and> sorted_wrt (\<lambda>a b. nlt b a) amounts \<and> distinct amounts"
proof -
  from extract_returns[of heap s] obtain xs where
    res: "fst (extractAmountsFromText heap s) = Inr (Array_sort (\<lambda>a b. nsub b a) xs)"
    and d: "distinct xs" and r: "list_all in_range xs" by blast
  from r have fin: "\<forall>a \<in> set xs. \<exists>r. a = Fin r"
    by (auto simp: list_all_iff dest: in_range_Fin)
  have "sorted_wrt (\<lambda>a b. nlt b a) (Array_sort (\<lambda>a b. nsub b a) xs)"
    by (rule Array_sort_descending[OF fin d])
  moreover from d have "distinct (Array_sort (\<lambda>a b. nsub b a) xs)"
    by (simp add: distinct_Array_sort)
  ultimately show ?thesis using res by blast
qed

text \<open>
  Claim C2. For every input text the call returns a list, and every amount in it is a
  Number (not \<open>NaN\<close>) strictly greater than 0 and strictly less than 10000; no value that
  is \<open>NaN\<close>, zero, negative, or at least 10000 is a member of the result, so a match
  with such a parsed value is left out.
\<close>

theorem extractAmountsFromText_amounts_in_range:
  "\<exists>amounts. fst (extractAmountsFromText heap s) = Inr amounts
     \<and> (\<forall>a \<in> set amounts. \<not> isNaN a \<and> nlt (Fin 0) a \<and> nlt a (Fin 10000))
     \<and> (\<forall>v. isNaN v \<or> nle v (Fin 0) \<or> nle (Fin 10000) v \<longrightarrow> v \<notin> set amounts)"
proof -
  from extract_returns[of heap s] obtain xs where
    res: "fst (extractAmountsFromText heap s) = Inr (Array_sort (\<lambda>a b. nsub b a) xs)"
    and r: "list_all in_range xs" by blast
  let ?out = "Array_sort (\<lambda>a b. nsub b a) xs"
  from r have in_r: "\<forall>a \<in> set ?out. in_range a"
    by (simp add: set_Array_sort list_all_iff)
  then have 1: "\<forall>a \<in> set ?out. \<not> isNaN a \<and> nlt (Fin 0) a \<and> nlt a (Fin 10000)"
    by (simp add: in_range_def)
  have 2: "\<forall>v. isNaN v \<or> nle v (Fin 0) \<or> nle (Fin 10000) v \<longrightarrow> v \<notin> set ?out"
  proof (intro allI impI notI)
    fix v assume bad: "isNaN v \<or> nle v (Fin 0) \<or> nle (Fin 10000) v" and "v \<in> set ?out"
    with in_r have "in_range v" by blast
    from in_range_Fin[OF this] obtain q where "v = Fin q" "0 < q" "q < 10000" by blast
    with bad show False by (auto simp: isNaN_def nle_def)
  qed
  from res 1 2 show ?thesis by blast
qed

text \<open>The definitions a concrete call unfolds to.\<close>

lemmas eval_defs = extractAmountsFromText_def pattern1_def pattern2_def pattern3_def pattern4_def
  word_def digit_def space_def thousands_def exec_loop.simps exec_def scan.simps matcher_Rep
  canonicalize_def isDigit_def isWhiteSpace_def isLineTerminator_def slice_def remove_commas_def
  parseFloat_def number_of_decimal_def digits_val_def digit_val_def scale10_def exponent_part_def
  isNaN_def Set_add_def
  Array_sort_def nsub_def overflow_def Let_def

lemma extract_example:
  "fst (extractAmountsFromText [] ''Total: $12.34 and $5'') = Inr [Fin (617 / 50), Fin 5, Fin 1]"
  by (simp add: eval_defs)

theorem extractAmountsFromText_amounts_in_range_witness:
  "fst (extractAmountsFromText [] ''Total: $12.34 and $5'') = Inr [Fin (617 / 50), Fin 5, Fin 1]
     \<and> nlt (Fin 0) (Fin 1) \<and> nlt (Fin (617 / 50)) (Fin 10000) \<and> Fin 12345 \<notin> set [Fin (617 / 50), Fin 5, Fin 1]"
  using extractAmountsFromText_amounts_in_range[of "[]" "''Total: $12.34 and $5''"]
  by (simp add: extract_example)

lemma length_forEach: "length (snd (forEach ps s amounts)) = length ps"
proof (induction ps arbitrary: amounts)
  case Nil
  show ?case by simp
next
  case (Cons p ps)
  obtain res p' where l: "exec_loop p s amounts = (res, p')" by (cases "exec_loop p s amounts") auto
  show ?case
  proof (cases res)
    case (Inl err)
    with l show ?thesis by simp
  next
    case (Inr amounts')
    obtain res' ps' where f: "forEach ps s amounts' = (res', ps')"
      by (cases "forEach ps s amounts'") auto
    with Cons.IH[of amounts'] have "length ps' = length ps" by simp
    with l Inr f show ?thesis by simp
  qed
qed

text \<open>
  Claim C5. The result of \<open>extractAmountsFromText\<close> depends on the text alone: from any two
  heaps (whatever RegExp objects, with whatever \<open>lastIndex\<close>, earlier calls have left) the
  result for the same text is the same; a second call after a first one returns what the
  first returned; and the objects already on the heap are not modified, because the call
  works on the four objects it allocates itself, each created with \<open>lastIndex = 0\<close>.
\<close>

theorem extractAmountsFromText_stateless:
  "fst (extractAmountsFromText heap1 s) = fst (extractAmountsFromText heap2 s)
     \<and> fst (extractAmountsFromText (snd (extractAmountsFromText heap1 s)) s) = fst (extractAmountsFromText heap1 s)
     \<and> take (length heap1) (snd (extractAmountsFromText heap1 s)) = heap1
     \<and> length (snd (extractAmountsFromText heap1 s)) = length heap1 + 4
     \<and> map lastIndex [pattern1, pattern2, pattern3, pattern4] = [0, 0, 0, 0]"
proof -
  obtain res ps where f: "forEach [pattern1, pattern2, pattern3, pattern4] s [] = (res, ps)"
    by (cases "forEach [pattern1, pattern2, pattern3, pattern4] s []") auto
  from length_forEach[of "[pattern1, pattern2, pattern3, pattern4]" s "[]"] f
  have len: "length ps = 4" by simp
  have fresh: "map lastIndex [pattern1, pattern2, pattern3, pattern4] = [0, 0, 0, 0]"
    by (simp add: pattern1_def pattern2_def pattern3_def pattern4_def)
  from f len fresh show ?thesis
    by (cases res) (simp_all add: extractAmountsFromText_def)
qed

text \<open>
  That \<open>lastIndex\<close> is state that matters: the same loop on a pattern object whose
  \<open>lastIndex\<close> is stale misses the first amount.
\<close>

lemma stale_lastIndex_matters:
  "fst (exec_loop pattern1 ''$5.00 $7.00'' []) = Inr [Fin 5, Fin 7]
     \<and> fst (exec_loop (pattern1\<lparr>lastIndex := 3\<rparr>) ''$5.00 $7.00'' []) = Inr [Fin 7]"
  by (simp add: eval_defs)

section \<open>Properties of the expense list\<close>

text \<open>The state of the component when it is mounted: the initial values of \<open>useState\<close>.\<close>

definition initial_app :: app where
  "initial_app =
     \<lparr>receiptPhoto = None, extractedText = [], detectedAmounts = [], selectedAmount = [],
      merchant = [], expenses = [], totalSpent = Fin 0, isProcessing = False,
      storage = Map.empty, alerts = []\<rparr>"

text \<open>A receipt ready to be added, and the clock and locale of the device.\<close>

definition cafe_env :: env where
  "cafe_env = \<lparr>now = 1700000000000, localeDateString = ''11/14/2023''\<rparr>"

definition cafe_app :: app where
  "cafe_app = initial_app\<lparr>receiptPhoto := Some ''file:///receipt.jpg'', extractedText := ''CAFE 4.50'',
                           selectedAmount := ''4.50'', merchant := ''CAFE''\<rparr>"

subsection \<open>The total\<close>

text \<open>
  The sum the specification speaks of: the \<open>amount\<close> fields of the records, read as
  Numbers and added up from 0 in list order, one summand per record.
\<close>

definition amount_of :: "obj \<Rightarrow> number" where
  "amount_of expense = (case get_prop expense ''amount'' of VNum n \<Rightarrow> n | _ \<Rightarrow> NaN)"

definition sum_of_amounts :: "obj list \<Rightarrow> number" where
  "sum_of_amounts expenseList = foldl nadd (Fin 0) (map amount_of expenseList)"

definition has_numeric_amount :: "obj \<Rightarrow> bool" where
  "has_numeric_amount expense =
     (case get_prop expense ''amount'' of VNum n \<Rightarrow> n \<noteq> NaN | _ \<Rightarrow> False)"

text \<open>What one record adds to the total in the \<open>reduce\<close> of \<open>calculateTotal\<close>.\<close>

definition contribution :: "obj \<Rightarrow> number" where
  "contribution expense = parseFloat_val (js_or (get_prop expense ''amount'') (VNum (Fin 0)))"

lemma totalSpent_calculateTotal:
  "totalSpent (calculateTotal expenseList st) = foldl nadd (Fin 0) (map contribution expenseList)"
  by (simp add: calculateTotal_def contribution_def foldl_map)

lemma contribution_numeric: "has_numeric_amount e \<Longrightarrow> contribution e = amount_of e"
  by (auto simp: has_numeric_amount_def contribution_def amount_of_def js_or_def
      split: jsval.splits)

text \<open>
  An amount \<open>NaN\<close> is falsy and adds 0, where a sum would be \<open>NaN\<close>: this is why the
  numeric amounts of claim C3 are the Numbers other than \<open>NaN\<close>. No record the app creates
  or loads has such an amount.
\<close>

lemma contribution_NaN: "get_prop e ''amount'' = VNum NaN \<Longrightarrow> contribution e = Fin 0"
  by (simp add: contribution_def js_or_def)

text \<open>
  A Number is in range when it is not a finite value beyond the doubles. Every sum is in
  range, so the accumulator of \<open>reduce\<close> always is, and adding 0 to it changes nothing.
\<close>

definition in_double_range :: "number \<Rightarrow> bool" where
  "in_double_range n = (case n of Fin v \<Rightarrow> \<bar>v\<bar> < 2 ^ 1024 - 2 ^ 970 | _ \<Rightarrow> True)"

lemma in_double_range_overflow: "in_double_range (overflow v)"
  by (simp add: in_double_range_def overflow_def)

lemma in_double_range_nadd: "in_double_range (nadd a b)"
  by (cases a; cases b) (simp_all add: in_double_range_overflow, simp_all add: in_double_range_def)

lemma in_double_range_foldl:
  "in_double_range acc \<Longrightarrow> in_double_range (foldl nadd acc ns)"
  by (induction ns arbitrary: acc) (simp_all add: in_double_range_nadd)

lemma nadd_zero_right: "in_double_range a \<Longrightarrow> nadd a (Fin 0) = a"
  by (cases a) (simp_all add: in_double_range_def overflow_def)

lemma contribution_falsy: "\<not> truthy (get_prop e ''amount'') \<Longrightarrow> contribution e = Fin 0"
  by (simp add: contribution_def js_or_def)

text \<open>
  On amounts that are not negative, as those of the app are, the sum is the sum of the
  rationals as long as that stays inside the range of doubles.
\<close>

lemma sum_of_finite_amounts:
  "0 \<le> a \<Longrightarrow> \<forall>r \<in> set rs. 0 \<le> r \<Longrightarrow> a + sum_list rs < 2 ^ 1024 - 2 ^ 970 \<Longrightarrow>
     foldl nadd (Fin a) (map Fin rs) = Fin (a + sum_list rs)"
proof (induction rs arbitrary: a)
  case Nil
  show ?case by simp
next
  case (Cons r rs)
  from Cons.prems have r: "0 \<le> r" and rest: "\<forall>q \<in> set rs. 0 \<le> q" by simp_all
  from rest have "0 \<le> sum_list rs" by (simp add: sum_list_nonneg)
  with Cons.prems(1,3) r have small: "\<bar>a + r\<bar> < 2 ^ 1024 - 2 ^ 970" by simp
  then have step: "nadd (Fin a) (Fin r) = Fin (a + r)" by (simp add: overflow_def)
  from Cons.prems(1) r have "0 \<le> a + r" by simp
  from Cons.IH[OF this rest] Cons.prems(3) step show ?case by (simp add: add.assoc)
qed

text \<open>
  Claim C3. For every expense list whose records all have a numeric amount (a Number
  other than \<open>NaN\<close>), the total that \<open>calculateTotal\<close> stores in \<open>totalSpent\<close> is the sum of
  the amount fields of the records of the list, each record counted once.
\<close>

theorem calculateTotal_is_sum_of_amounts:
  assumes "list_all has_numeric_amount expenseList"
  shows "totalSpent (calculateTotal expenseList st) = sum_of_amounts expenseList"
proof -
  from assms have "map contribution expenseList = map amount_of expenseList"
    by (simp add: list_all_iff contribution_numeric)
  then show ?thesis by (simp only: totalSpent_calculateTotal sum_of_amounts_def)
qed

lemmas total_eval = calculateTotal_def get_prop_def js_or_def has_numeric_amount_def
  sum_of_amounts_def amount_of_def overflow_def

theorem calculateTotal_is_sum_of_amounts_witness:
  "list_all has_numeric_amount
       [[(''id'', VStr ''1''), (''amount'', VNum (Fin 5))], [(''amount'', VNum (Fin (5 / 2)))]]
     \<and> totalSpent (calculateTotal
          [[(''id'', VStr ''1''), (''amount'', VNum (Fin 5))], [(''amount'', VNum (Fin (5 / 2)))]]
          initial_app) = Fin (15 / 2)"
  using calculateTotal_is_sum_of_amounts
    [of "[[(''id'', VStr ''1''), (''amount'', VNum (Fin 5))], [(''amount'', VNum (Fin (5 / 2)))]]" initial_app]
  by (simp add: total_eval)

text \<open>
  Claim C10. \<open>calculateTotal\<close> yields a total for every expense list (it is a fold whose
  step is defined on every record); for the empty list the total is 0; a record whose
  amount is missing, null or otherwise falsy adds 0, so the total is the one of the list
  without that record; and when every amount is falsy or a finite Number the total is
  not \<open>NaN\<close> (it is a finite Number, or an infinity when the sum leaves the range of
  doubles).
\<close>

theorem calculateTotal_total_with_default:
  "totalSpent (calculateTotal [] st) = Fin 0
   \<and> (\<not> truthy (get_prop expense ''amount'') \<longrightarrow>
        totalSpent (calculateTotal (before @ expense # after) st)
          = totalSpent (calculateTotal (before @ after) st))
   \<and> ((\<forall>e \<in> set expenseList. \<not> truthy (get_prop e ''amount'')
           \<or> (\<exists>r. get_prop e ''amount'' = VNum (Fin r)))
        \<longrightarrow> totalSpent (calculateTotal expenseList st) \<noteq> NaN)"
proof (intro conjI impI)
  show "totalSpent (calculateTotal [] st) = Fin 0"
    by (simp add: totalSpent_calculateTotal)
next
  assume falsy: "\<not> truthy (get_prop expense ''amount'')"
  have "in_double_range (foldl nadd (Fin 0) (map contribution before))"
    by (rule in_double_range_foldl) (simp add: in_double_range_def)
  from nadd_zero_right[OF this] falsy
  show "totalSpent (calculateTotal (before @ expense # after) st)
          = totalSpent (calculateTotal (before @ after) st)"
    by (simp add: totalSpent_calculateTotal contribution_falsy)
next
  assume a: "\<forall>e \<in> set expenseList. \<not> truthy (get_prop e ''amount'')
           \<or> (\<exists>r. get_prop e ''amount'' = VNum (Fin r))"
  have c: "\<exists>r. contribution e = Fin r" if "e \<in> set expenseList" for e
  proof -
    from a that consider "\<not> truthy (get_prop e ''amount'')" | r where "get_prop e ''amount'' = VNum (Fin r)"
      by blast
    then show ?thesis
    proof cases
      case 1
      then show ?thesis by (simp add: contribution_falsy)
    next
      case 2
      then show ?thesis by (simp add: contribution_def js_or_def)
    qed
  qed
  have "foldl nadd acc (map contribution es) \<noteq> NaN"
    if "set es \<subseteq> set expenseList" and "acc \<noteq> NaN" for es acc
    using that
  proof (induction es arbitrary: acc)
    case Nil
    then show ?case by simp
  next
    case (Cons e es)
    from Cons.prems(1) c[of e] obtain r where r: "contribution e = Fin r" by auto
    from Cons.prems(2) have "nadd acc (Fin r) \<noteq> NaN"
      by (cases acc) (simp_all add: overflow_def)
    with Cons.IH[of "nadd acc (Fin r)"] Cons.prems(1) r show ?case by simp
  qed
  from this[of expenseList "Fin 0"] show "totalSpent (calculateTotal expenseList st) \<noteq> NaN"
    by (simp add: totalSpent_calculateTotal)
qed

theorem calculateTotal_total_with_default_witness:
  "\<not> truthy (get_prop [(''amount'', VNull)] ''amount'')
   \<and> list_all (\<lambda>e. \<not> truthy (get_prop e ''amount'') \<or> (\<exists>r. get_prop e ''amount'' = VNum (Fin r)))
        [[(''id'', VStr ''1'')], [(''amount'', VNull)], [(''amount'', VNum (Fin 5))]]
   \<and> totalSpent (calculateTotal [[(''id'', VStr ''1'')], [(''amount'', VNull)], [(''amount'', VNum (Fin 5))]]
        initial_app) = Fin 5
   \<and> totalSpent (calculateTotal [] initial_app) = Fin 0"
  using calculateTotal_total_with_default
    [of initial_app "[(''amount'', VNull)]" "[[(''id'', VStr ''1'')]]" "[[(''amount'', VNum (Fin 5))]]"
        "[[(''id'', VStr ''1'')], [(''amount'', VNull)], [(''amount'', VNum (Fin 5))]]"]
  by (simp add: total_eval parseFloat_def isWhiteSpace_def isDigit_def)

text \<open>
  The total of finite amounts need not be finite: \<open>addExpense\<close> accepts the amount
  \<open>1e308\<close>, and two records with it add up to \<open>Infinity\<close>.
\<close>

lemma calculateTotal_overflows:
  "parseFloat ''1e308'' = Fin (10 ^ 308)
   \<and> totalSpent (calculateTotal [[(''amount'', VNum (Fin (10 ^ 308)))], [(''amount'', VNum (Fin (10 ^ 308)))]]
        initial_app) = PosInf"
  by (simp add: total_eval parseFloat_def number_of_decimal_def isWhiteSpace_def isDigit_def
      digits_val_def digit_val_def scale10_def exponent_part_def)

subsection \<open>Adding and deleting\<close>

text \<open>
  Claim C9. If the selected amount is the empty string, does not parse to a number, or
  parses to a value less than or equal to 0, \<open>addExpense\<close> shows the invalid-amount alert
  and does nothing else, whichever button would be pressed: the expense list, the
  contents of storage and the total are unchanged.
\<close>

theorem addExpense_invalid_amount:
  assumes "selectedAmount st = [] \<or> isNaN (parseFloat (selectedAmount st))
             \<or> nle (parseFloat (selectedAmount st)) (Fin 0)"
  shows "addExpense ev pressed st = st\<lparr>alerts := alerts st @ [InvalidAmount]\<rparr>
     \<and> expenses (addExpense ev pressed st) = expenses st
     \<and> storage (addExpense ev pressed st) = storage st
     \<and> totalSpent (addExpense ev pressed st) = totalSpent st"
  using assms by (auto simp: addExpense_def Let_def)

text \<open>The definitions a concrete \<open>parseFloat\<close> unfolds to.\<close>

lemmas parse_eval = parseFloat_def number_of_decimal_def isWhiteSpace_def isDigit_def digits_val_def
  digit_val_def scale10_def exponent_part_def

theorem addExpense_invalid_amount_witness:
  "selectedAmount initial_app = []
     \<and> alerts (addExpense cafe_env Add initial_app) = [InvalidAmount]
     \<and> expenses (addExpense cafe_env Add initial_app) = []
     \<and> isNaN (parseFloat ''abc'')
     \<and> alerts (addExpense cafe_env Add (initial_app\<lparr>selectedAmount := ''abc''\<rparr>)) = [InvalidAmount]
     \<and> expenses (addExpense cafe_env Add (initial_app\<lparr>selectedAmount := ''abc''\<rparr>)) = []
     \<and> nle (parseFloat ''-3.5'') (Fin 0)
     \<and> alerts (addExpense cafe_env Add (initial_app\<lparr>selectedAmount := ''-3.5''\<rparr>)) = [InvalidAmount]
     \<and> expenses (addExpense cafe_env Add (initial_app\<lparr>selectedAmount := ''-3.5''\<rparr>)) = []
     \<and> storage (addExpense cafe_env Add (initial_app\<lparr>selectedAmount := ''-3.5''\<rparr>)) ''expenses'' = None
     \<and> totalSpent (addExpense cafe_env Add (initial_app\<lparr>selectedAmount := ''-3.5''\<rparr>)) = Fin 0"
  using addExpense_invalid_amount [of initial_app cafe_env Add]
    addExpense_invalid_amount [of "initial_app\<lparr>selectedAmount := ''abc''\<rparr>" cafe_env Add]
    addExpense_invalid_amount [of "initial_app\<lparr>selectedAmount := ''-3.5''\<rparr>" cafe_env Add]
  by (simp add: parse_eval nle_def isNaN_def initial_app_def)

lemma deleteExpense_fields:
  "expenses (deleteExpense expenseId st)
       = filter (\<lambda>expense. \<not> strict_eq (get_prop expense ''id'') expenseId) (expenses st)"
  "totalSpent (deleteExpense expenseId st)
       = foldl nadd (Fin 0) (map contribution
           (filter (\<lambda>expense. \<not> strict_eq (get_prop expense ''id'') expenseId) (expenses st)))"
  "storage (deleteExpense expenseId st)
       = (storage st)(''expenses'' \<mapsto> JSON_stringify
           (filter (\<lambda>expense. \<not> strict_eq (get_prop expense ''id'') expenseId) (expenses st)))"
  by (simp_all add: deleteExpense_def saveExpenses_def calculateTotal_def contribution_def
      foldl_map Let_def)

text \<open>
  Claim C8. \<open>deleteExpense(expenseId)\<close> removes exactly the records whose \<open>id\<close> is strictly
  equal to the given id: the new list is the old one without them, so every other record
  is still there, unchanged and in the same relative order; the total is recomputed over
  the remaining records only, and they are what is saved.
\<close>

theorem deleteExpense_removes_matching:
  "expenses (deleteExpense expenseId st)
       = filter (\<lambda>expense. \<not> strict_eq (get_prop expense ''id'') expenseId) (expenses st)
   \<and> (\<forall>e. e \<in> set (expenses (deleteExpense expenseId st))
          \<longleftrightarrow> e \<in> set (expenses st) \<and> \<not> strict_eq (get_prop e ''id'') expenseId)
   \<and> subseq (expenses (deleteExpense expenseId st)) (expenses st)
   \<and> totalSpent (deleteExpense expenseId st)
       = foldl nadd (Fin 0) (map contribution (expenses (deleteExpense expenseId st)))
   \<and> totalSpent (deleteExpense expenseId st)
       = totalSpent (calculateTotal (expenses (deleteExpense expenseId st)) st)
   \<and> storage (deleteExpense expenseId st) ''expenses''
       = Some (JSON_stringify (expenses (deleteExpense expenseId st)))"
  by (simp add: deleteExpense_fields totalSpent_calculateTotal)

theorem deleteExpense_removes_matching_witness:
  "expenses (deleteExpense (VStr ''2'')
     (initial_app\<lparr>expenses := [[(''id'', VStr ''1''), (''amount'', VNum (Fin 4))],
                                [(''id'', VStr ''2''), (''amount'', VNum (Fin 6))],
                                [(''id'', VStr ''3''), (''amount'', VNum (Fin 1))]]\<rparr>))
     = [[(''id'', VStr ''1''), (''amount'', VNum (Fin 4))], [(''id'', VStr ''3''), (''amount'', VNum (Fin 1))]]
   \<and> totalSpent (deleteExpense (VStr ''2'')
     (initial_app\<lparr>expenses := [[(''id'', VStr ''1''), (''amount'', VNum (Fin 4))],
                                [(''id'', VStr ''2''), (''amount'', VNum (Fin 6))],
                                [(''id'', VStr ''3''), (''amount'', VNum (Fin 1))]]\<rparr>)) = Fin 5"
  using deleteExpense_removes_matching
    [of "VStr ''2''"
        "initial_app\<lparr>expenses := [[(''id'', VStr ''1''), (''amount'', VNum (Fin 4))],
                                   [(''id'', VStr ''2''), (''amount'', VNum (Fin 6))],
                                   [(''id'', VStr ''3''), (''amount'', VNum (Fin 1))]]\<rparr>"]
  by (simp add: initial_app_def contribution_def get_prop_def js_or_def overflow_def)


subsection \<open>Persistence\<close>

text \<open>The values JSON can write and read back: all but undefined, \<open>NaN\<close> and the infinities.\<close>

fun json_representable :: "jsval \<Rightarrow> bool" where
  "json_representable VUndefined = False"
| "json_representable (VNum (Fin r)) = True"
| "json_representable (VNum n) = False"
| "json_representable v = True"

lemma parse_Serialize:
  "json_representable v \<Longrightarrow> map_option parse_value (SerializeJSONProperty v) = Some v"
  by (cases v rule: json_representable.cases) simp_all

lemma parse_SerializeJSONObject:
  "list_all (\<lambda>(k, v). json_representable v) ob \<Longrightarrow>
     map (\<lambda>(k, j). (k, parse_value j)) (SerializeJSONObject ob) = ob"
proof (induction ob)
  case Nil
  show ?case by (simp add: SerializeJSONObject_def List.map_filter_simps)
next
  case (Cons p ob)
  obtain k v where p: "p = (k, v)" by (cases p) auto
  with Cons.prems have "json_representable v" by simp
  from parse_Serialize[OF this] obtain j where j: "SerializeJSONProperty v = Some j" "parse_value j = v"
    by auto
  with Cons p show ?case by (simp add: SerializeJSONObject_def List.map_filter_simps)
qed

lemma JSON_round_trip:
  "list_all (list_all (\<lambda>(k, v). json_representable v)) expenseList \<Longrightarrow>
     JSON_parse (JSON_stringify expenseList) = expenseList"
  by (induction expenseList) (simp_all add: JSON_parse_def JSON_stringify_def parse_SerializeJSONObject)

text \<open>
  The condition is also necessary: a list goes through \<open>JSON.stringify\<close> and \<open>JSON.parse\<close>
  unchanged exactly when all its field values are representable.
\<close>

lemma length_SerializeJSONObject: "length (SerializeJSONObject ob) \<le> length ob"
  by (induction ob) (auto simp: SerializeJSONObject_def List.map_filter_simps split: option.splits)

lemma parse_Serialize_only_if:
  "SerializeJSONProperty v = Some j \<Longrightarrow> parse_value j = v \<Longrightarrow> json_representable v"
  by (cases v rule: json_representable.cases) auto

lemma parse_SerializeJSONObject_only_if:
  "map (\<lambda>(k, j). (k, parse_value j)) (SerializeJSONObject ob) = ob \<Longrightarrow>
     list_all (\<lambda>(k, v). json_representable v) ob"
proof (induction ob)
  case Nil
  show ?case by simp
next
  case (Cons p ob)
  obtain k v where p: "p = (k, v)" by (cases p) auto
  show ?case
  proof (cases "SerializeJSONProperty v")
    case None
    with p have "SerializeJSONObject (p # ob) = SerializeJSONObject ob"
      by (simp add: SerializeJSONObject_def List.map_filter_simps)
    with Cons.prems have "length (SerializeJSONObject ob) = Suc (length ob)"
      by (metis length_Cons length_map)
    with length_SerializeJSONObject[of ob] show ?thesis by simp
  next
    case (Some j)
    with p have "SerializeJSONObject (p # ob) = (k, j) # SerializeJSONObject ob"
      by (simp add: SerializeJSONObject_def List.map_filter_simps)
    with Cons.prems p have v: "parse_value j = v"
      and rest: "map (\<lambda>(k, j). (k, parse_value j)) (SerializeJSONObject ob) = ob" by simp_all
    from parse_Serialize_only_if[OF Some v] Cons.IH[OF rest] p show ?thesis by simp
  qed
qed

lemma JSON_round_trip_iff:
  "JSON_parse (JSON_stringify expenseList) = expenseList
     \<longleftrightarrow> list_all (list_all (\<lambda>(k, v). json_representable v)) expenseList"
proof
  assume "list_all (list_all (\<lambda>(k, v). json_representable v)) expenseList"
  then show "JSON_parse (JSON_stringify expenseList) = expenseList" by (rule JSON_round_trip)
next
  assume "JSON_parse (JSON_stringify expenseList) = expenseList"
  then have "map (\<lambda>ob. map (\<lambda>(k, j). (k, parse_value j)) (SerializeJSONObject ob)) expenseList
      = map id expenseList"
    by (simp add: JSON_parse_def JSON_stringify_def o_def)
  then have "\<forall>ob \<in> set expenseList. map (\<lambda>(k, j). (k, parse_value j)) (SerializeJSONObject ob) = ob"
    by (simp only: map_eq_conv id_apply)
  then have "\<forall>ob \<in> set expenseList. list_all (\<lambda>(k, v). json_representable v) ob"
    using parse_SerializeJSONObject_only_if by blast
  then show "list_all (list_all (\<lambda>(k, v). json_representable v)) expenseList"
    by (simp add: list_all_iff)
qed

lemma load_after_save:
  "expenses (loadExpenses (saveExpenses expenseList st)) = JSON_parse (JSON_stringify expenseList)"
  "totalSpent (loadExpenses (saveExpenses expenseList st))
     = totalSpent (calculateTotal (JSON_parse (JSON_stringify expenseList)) st)"
  by (simp_all add: loadExpenses_def saveExpenses_def Let_def totalSpent_calculateTotal)
     (simp_all add: calculateTotal_def)

text \<open>
  Claim C4, as amended. For every expense list whose field values JSON can represent (no
  undefined, \<open>NaN\<close> or infinite value), saving it with \<open>saveExpenses\<close> and then loading
  with \<open>loadExpenses\<close> restores an equal list, and the total of that list; \<open>saveExpenses\<close>
  writes the key \<open>expenses\<close> and no other.
\<close>

theorem save_load_round_trip:
  assumes "list_all (list_all (\<lambda>(k, v). json_representable v)) expenseList"
  shows "expenses (loadExpenses (saveExpenses expenseList st)) = expenseList
     \<and> totalSpent (loadExpenses (saveExpenses expenseList st))
         = totalSpent (calculateTotal expenseList st)
     \<and> (\<forall>key. key \<noteq> ''expenses'' \<longrightarrow> storage (saveExpenses expenseList st) key = storage st key)"
  using JSON_round_trip[OF assms] by (simp add: load_after_save) (simp add: saveExpenses_def)

lemma nat_toString_now: "nat_toString 1700000000000 = ''1700000000000''"
  by (simp add: nat_toString.simps)

lemmas app_eval = addExpense_def cafe_env_def cafe_app_def initial_app_def parse_eval nle_def isNaN_def
  Let_def calculateTotal_def saveExpenses_def clearForm_def get_prop_def js_or_def nat_toString_now
  loadExpenses_def JSON_parse_def JSON_stringify_def SerializeJSONObject_def List.map_filter_simps

lemma addExpense_cafe:
  "expenses (addExpense cafe_env Add cafe_app) =
     [[(''id'', VStr ''1700000000000''), (''amount'', VNum (Fin (9 / 2))), (''merchant'', VStr ''CAFE''),
       (''date'', VStr ''11/14/2023''), (''photo'', VStr ''file:///receipt.jpg''),
       (''extractedText'', VStr ''CAFE 4.50'')]]"
  by (simp add: app_eval)

theorem save_load_round_trip_witness:
  "list_all (list_all (\<lambda>(k, v). json_representable v)) (expenses (addExpense cafe_env Add cafe_app))
     \<and> expenses (loadExpenses (saveExpenses (expenses (addExpense cafe_env Add cafe_app)) initial_app))
         = [[(''id'', VStr ''1700000000000''), (''amount'', VNum (Fin (9 / 2))), (''merchant'', VStr ''CAFE''),
             (''date'', VStr ''11/14/2023''), (''photo'', VStr ''file:///receipt.jpg''),
             (''extractedText'', VStr ''CAFE 4.50'')]]
     \<and> ''settings'' \<noteq> ''expenses''
     \<and> storage (saveExpenses (expenses (addExpense cafe_env Add cafe_app)) initial_app) ''settings''
         = storage initial_app ''settings''"
  using save_load_round_trip[of "expenses (addExpense cafe_env Add cafe_app)" initial_app]
  by (simp add: addExpense_cafe)

text \<open>
  The claim as stated fails: \<open>addExpense\<close> accepts the amount \<open>Infinity\<close>, and the record it
  creates comes back from storage with the amount null.
\<close>

lemma addExpense_Infinity:
  "expenses (addExpense cafe_env Add (cafe_app\<lparr>selectedAmount := ''Infinity''\<rparr>)) =
     [[(''id'', VStr ''1700000000000''), (''amount'', VNum PosInf), (''merchant'', VStr ''CAFE''),
       (''date'', VStr ''11/14/2023''), (''photo'', VStr ''file:///receipt.jpg''),
       (''extractedText'', VStr ''CAFE 4.50'')]]"
  by (simp add: app_eval)

theorem save_load_loses_infinite_amount:
  "expenses (loadExpenses (saveExpenses
       [[(''id'', VStr ''1700000000000''), (''amount'', VNum PosInf), (''merchant'', VStr ''CAFE''),
         (''date'', VStr ''11/14/2023''), (''photo'', VStr ''file:///receipt.jpg''),
         (''extractedText'', VStr ''CAFE 4.50'')]] initial_app))
     = [[(''id'', VStr ''1700000000000''), (''amount'', VNull), (''merchant'', VStr ''CAFE''),
         (''date'', VStr ''11/14/2023''), (''photo'', VStr ''file:///receipt.jpg''),
         (''extractedText'', VStr ''CAFE 4.50'')]]
   \<and> expenses (loadExpenses (saveExpenses
       [[(''id'', VStr ''1700000000000''), (''amount'', VNum PosInf), (''merchant'', VStr ''CAFE''),
         (''date'', VStr ''11/14/2023''), (''photo'', VStr ''file:///receipt.jpg''),
         (''extractedText'', VStr ''CAFE 4.50'')]] initial_app))
     \<noteq> [[(''id'', VStr ''1700000000000''), (''amount'', VNum PosInf), (''merchant'', VStr ''CAFE''),
         (''date'', VStr ''11/14/2023''), (''photo'', VStr ''file:///receipt.jpg''),
         (''extractedText'', VStr ''CAFE 4.50'')]]"
  by (simp add: app_eval)

subsection \<open>The shape of the records\<close>

text \<open>
  The fields the glossary lists for an expense record, and the fields of the record that
  \<open>addExpense\<close> builds. A record has the shape when it has exactly the second list of
  fields, each with a value. The stored records are those of the list in memory and those
  of the list in storage.
\<close>

definition glossary_fields :: "string list" where
  "glossary_fields = [''amount'', ''merchant'', ''date'', ''photo'', ''extractedText'']"

definition record_fields :: "string list" where
  "record_fields = [''id'', ''amount'', ''merchant'', ''date'', ''photo'', ''extractedText'']"

definition has_shape :: "obj \<Rightarrow> bool" where
  "has_shape expense =
     (map fst expense = record_fields \<and> list_all (\<lambda>(k, v). v \<noteq> VUndefined) expense)"

definition stored_records :: "app \<Rightarrow> obj list" where
  "stored_records st =
     expenses st @ (case storage st ''expenses'' of None \<Rightarrow> [] | Some doc \<Rightarrow> JSON_parse doc)"

definition shape_invariant :: "app \<Rightarrow> bool" where
  "shape_invariant st = list_all has_shape (stored_records st)"

lemma Serialize_defined: "v \<noteq> VUndefined \<Longrightarrow> \<exists>j. SerializeJSONProperty v = Some j"
  by (cases v rule: SerializeJSONProperty.cases) simp_all

lemma parse_value_defined: "parse_value j \<noteq> VUndefined"
  by (cases j) simp_all

lemma round_trip_keeps_fields:
  "list_all (\<lambda>(k, v). v \<noteq> VUndefined) ob \<Longrightarrow>
     map fst (map (\<lambda>(k, j). (k, parse_value j)) (SerializeJSONObject ob)) = map fst ob"
proof (induction ob)
  case Nil
  show ?case by (simp add: SerializeJSONObject_def List.map_filter_simps)
next
  case (Cons p ob)
  obtain k v where p: "p = (k, v)" by (cases p) auto
  with Cons.prems have "v \<noteq> VUndefined" by simp
  from Serialize_defined[OF this] obtain j where "SerializeJSONProperty v = Some j" by blast
  with Cons p show ?case by (simp add: SerializeJSONObject_def List.map_filter_simps)
qed

lemma round_trip_values_defined:
  "list_all (\<lambda>(k, v). v \<noteq> VUndefined) (map (\<lambda>(k, j). (k, parse_value j)) js)"
  by (induction js) (auto simp: parse_value_defined)

lemma has_shape_round_trip:
  assumes "has_shape e"
  shows "has_shape (map (\<lambda>(k, j). (k, parse_value j)) (SerializeJSONObject e))"
proof -
  from assms have u: "list_all (\<lambda>(k, v). v \<noteq> VUndefined) e" and f: "map fst e = record_fields"
    by (simp_all add: has_shape_def)
  from round_trip_keeps_fields[OF u] f
  have "map fst (map (\<lambda>(k, j). (k, parse_value j)) (SerializeJSONObject e)) = record_fields"
    by (simp only:)
  with round_trip_values_defined[of "SerializeJSONObject e"] show ?thesis
    unfolding has_shape_def by blast
qed

lemma shapes_round_trip:
  "list_all has_shape es \<Longrightarrow> list_all has_shape (JSON_parse (JSON_stringify es))"
  by (induction es) (simp_all add: JSON_parse_def JSON_stringify_def has_shape_round_trip)

lemma shape_invariant_saved:
  "list_all has_shape es \<Longrightarrow> expenses st = es \<Longrightarrow> storage st ''expenses'' = Some (JSON_stringify es)
     \<Longrightarrow> shape_invariant st"
  by (simp add: shape_invariant_def stored_records_def shapes_round_trip)

text \<open>The amount passes the check of \<open>addExpense\<close>; the record its callback builds.\<close>

definition valid_amount :: "app \<Rightarrow> bool" where
  "valid_amount st = (\<not> (selectedAmount st = [] \<or> isNaN (parseFloat (selectedAmount st))
                          \<or> nle (parseFloat (selectedAmount st)) (Fin 0)))"

definition newExpense :: "env \<Rightarrow> app \<Rightarrow> obj" where
  "newExpense ev st =
     [(''id'', VStr (nat_toString (now ev))),
      (''amount'', VNum (parseFloat (selectedAmount st))),
      (''merchant'', VStr (if merchant st \<noteq> [] then merchant st else ''Unknown Merchant'')),
      (''date'', VStr (localeDateString ev)),
      (''photo'', (case receiptPhoto st of None \<Rightarrow> VNull | Some uri \<Rightarrow> VStr uri)),
      (''extractedText'', VStr (extractedText st))]"

lemma has_shape_newExpense: "has_shape (newExpense ev st)"
  by (simp add: has_shape_def newExpense_def record_fields_def split: option.splits)

lemma addExpense_Add:
  "valid_amount st \<Longrightarrow>
     expenses (addExpense ev Add st) = expenses st @ [newExpense ev st]
     \<and> storage (addExpense ev Add st) ''expenses''
          = Some (JSON_stringify (expenses st @ [newExpense ev st]))
     \<and> totalSpent (addExpense ev Add st)
          = foldl nadd (Fin 0) (map contribution (expenses st @ [newExpense ev st]))"
  by (simp add: valid_amount_def addExpense_def Let_def newExpense_def clearForm_def
      saveExpenses_def calculateTotal_def contribution_def foldl_map)

lemma addExpense_no_record:
  "\<not> valid_amount st \<or> pressed = Cancel \<Longrightarrow>
     expenses (addExpense ev pressed st) = expenses st
     \<and> storage (addExpense ev pressed st) = storage st
     \<and> totalSpent (addExpense ev pressed st) = totalSpent st"
  by (auto simp: valid_amount_def addExpense_def Let_def)

lemma shape_invariant_addExpense:
  assumes "shape_invariant st"
  shows "shape_invariant (addExpense ev pressed st)"
proof (cases "valid_amount st \<and> pressed = Add")
  case True
  from assms have "list_all has_shape (expenses st @ [newExpense ev st])"
    by (simp add: shape_invariant_def stored_records_def has_shape_newExpense)
  with True addExpense_Add[of st ev] show ?thesis
    by (intro shape_invariant_saved[of "expenses st @ [newExpense ev st]"]) simp_all
next
  case False
  then have "\<not> valid_amount st \<or> pressed = Cancel" by (cases pressed) auto
  from addExpense_no_record[OF this, of ev] assms show ?thesis
    by (simp add: shape_invariant_def stored_records_def)
qed

lemma shape_invariant_deleteExpense:
  assumes "shape_invariant st"
  shows "shape_invariant (deleteExpense expenseId st)"
proof -
  let ?rest = "filter (\<lambda>expense. \<not> strict_eq (get_prop expense ''id'') expenseId) (expenses st)"
  from assms have "list_all has_shape ?rest"
    by (simp add: shape_invariant_def stored_records_def list_all_iff)
  then show ?thesis
    by (rule shape_invariant_saved) (simp_all add: deleteExpense_fields)
qed

lemma shape_invariant_loadExpenses:
  "shape_invariant st \<Longrightarrow> shape_invariant (loadExpenses st)"
  by (auto simp: shape_invariant_def stored_records_def loadExpenses_def calculateTotal_def Let_def
      split: option.splits)

lemma shape_invariant_saveExpenses:
  "shape_invariant st \<Longrightarrow> shape_invariant (saveExpenses (expenses st) st)"
  by (simp add: shape_invariant_def stored_records_def saveExpenses_def shapes_round_trip)

text \<open>
  Claim C6, as amended. The record that \<open>addExpense\<close> creates and saves has the fields
  \<open>id\<close>, \<open>amount\<close>, \<open>merchant\<close>, \<open>date\<close>, \<open>photo\<close> and \<open>extractedText\<close>, each with a value: the
  five fields of the glossary and an \<open>id\<close>. Adding, deleting, saving and loading keep
  this shape for all records of the list and of storage.
\<close>

theorem expense_records_keep_their_shape:
  assumes "shape_invariant st"
  shows "shape_invariant (addExpense ev pressed st)
     \<and> shape_invariant (deleteExpense expenseId st)
     \<and> shape_invariant (saveExpenses (expenses st) st)
     \<and> shape_invariant (loadExpenses st)
     \<and> (valid_amount st \<longrightarrow>
          expenses (addExpense ev Add st) = expenses st @ [newExpense ev st]
          \<and> storage (addExpense ev Add st) ''expenses''
               = Some (JSON_stringify (expenses st @ [newExpense ev st]))
          \<and> map fst (newExpense ev st) = record_fields
          \<and> has_shape (newExpense ev st))
     \<and> set glossary_fields \<subseteq> set record_fields"
  using assms shape_invariant_addExpense shape_invariant_deleteExpense shape_invariant_saveExpenses
    shape_invariant_loadExpenses addExpense_Add[of st ev] has_shape_newExpense[of ev st]
  by (simp add: has_shape_def) (simp add: glossary_fields_def record_fields_def)

theorem expense_records_keep_their_shape_witness:
  "shape_invariant cafe_app \<and> valid_amount cafe_app
     \<and> shape_invariant (addExpense cafe_env Add cafe_app)
     \<and> expenses (addExpense cafe_env Add cafe_app) =
         [[(''id'', VStr ''1700000000000''), (''amount'', VNum (Fin (9 / 2))), (''merchant'', VStr ''CAFE''),
           (''date'', VStr ''11/14/2023''), (''photo'', VStr ''file:///receipt.jpg''),
           (''extractedText'', VStr ''CAFE 4.50'')]]"
proof -
  have 1: "shape_invariant cafe_app"
    by (simp add: shape_invariant_def stored_records_def cafe_app_def initial_app_def)
  have 2: "valid_amount cafe_app"
    by (simp add: valid_amount_def cafe_app_def initial_app_def parse_eval nle_def isNaN_def)
  from expense_records_keep_their_shape[OF 1, of cafe_env Add] 1 2 show ?thesis
    by (simp add: addExpense_cafe)
qed

text \<open>
  The claim as stated fails: the created record, in memory and in storage, has a field
  \<open>id\<close>, which is not among the fields of the glossary.
\<close>

theorem created_record_is_not_the_glossary_shape:
  "map fst (last (expenses (addExpense cafe_env Add cafe_app)))
       = [''id'', ''amount'', ''merchant'', ''date'', ''photo'', ''extractedText'']
   \<and> ''id'' \<in> set (map fst (last (expenses (addExpense cafe_env Add cafe_app))))
   \<and> ''id'' \<notin> set glossary_fields
   \<and> set (map fst (last (expenses (addExpense cafe_env Add cafe_app)))) \<noteq> set glossary_fields
   \<and> map_option (map (map fst)) (storage (addExpense cafe_env Add cafe_app) ''expenses'')
       = Some [[''id'', ''amount'', ''merchant'', ''date'', ''photo'', ''extractedText'']]"
proof -
  have keys: "map fst (last (expenses (addExpense cafe_env Add cafe_app)))
       = [''id'', ''amount'', ''merchant'', ''date'', ''photo'', ''extractedText'']"
    by (simp add: addExpense_cafe)
  have out: "''id'' \<notin> set glossary_fields"
    by (simp add: glossary_fields_def)
  have mem: "''id'' \<in> set (map fst (last (expenses (addExpense cafe_env Add cafe_app))))"
    by (simp add: keys)
  from mem out
  have ne: "set (map fst (last (expenses (addExpense cafe_env Add cafe_app)))) \<noteq> set glossary_fields"
    by blast
  have stored: "map_option (map (map fst)) (storage (addExpense cafe_env Add cafe_app) ''expenses'')
       = Some [[''id'', ''amount'', ''merchant'', ''date'', ''photo'', ''extractedText'']]"
    by (simp add: app_eval)
  from keys mem out ne stored show ?thesis by blast
qed

section \<open>Properties of the inference pipeline\<close>

text \<open>
  Claim C7. The pipeline is a placeholder. The tensor that \<open>preprocessImage\<close> builds is
  the 1 x 3 x 224 x 224 tensor of the next 150528 random values, whatever the path and
  whatever the files hold; when \<open>processImageWithAI\<close> succeeds it returns \<open>imagePath\<close>
  itself, so that after \<open>processCurrentPhoto\<close> the processed photo is the original photo.
\<close>

theorem inference_pipeline_is_placeholder:
  "fst (preprocessImage w imagePath)
       = Inr \<lparr>dtype = ''float32'', tdata = random_data w 150528, dims = [1, 3, 224, 224]\<rparr>
   \<and> fst (preprocessImage (w\<lparr>files := fs\<rparr>) imagePath') = fst (preprocessImage w imagePath)
   \<and> (fst (processImageWithAI w imagePath) = Inr processedPath \<longrightarrow> processedPath = imagePath)
   \<and> (originalPhoto w = Some imagePath \<and> imagePath \<noteq> []
          \<and> fst (processImageWithAI w imagePath) = Inr processedPath
        \<longrightarrow> processedPhoto (processCurrentPhoto w) = originalPhoto w)"
proof (intro conjI impI)
  show "fst (preprocessImage w imagePath)
       = Inr \<lparr>dtype = ''float32'', tdata = random_data w 150528, dims = [1, 3, 224, 224]\<rparr>"
    by (simp add: preprocessImage_def)
  show "fst (preprocessImage (w\<lparr>files := fs\<rparr>) imagePath') = fst (preprocessImage w imagePath)"
    by (simp add: preprocessImage_def random_data_def del: upt_rec_numeral)
  show same: "processedPath = imagePath" if "fst (processImageWithAI w imagePath) = Inr processedPath"
    for processedPath
    using that
    by (auto simp: processImageWithAI_def preprocessImage_def Let_def
        split: option.splits sum.splits prod.splits)
  assume a: "originalPhoto w = Some imagePath \<and> imagePath \<noteq> []
          \<and> fst (processImageWithAI w imagePath) = Inr processedPath"
  then have p: "processedPath = imagePath" using same by blast
  have "session w \<noteq> None"
  proof
    assume "session w = None"
    with a show False by (simp add: processImageWithAI_def)
  qed
  with a p show "processedPhoto (processCurrentPhoto w) = originalPhoto w"
    by (cases "processImageWithAI w imagePath") (auto simp: processCurrentPhoto_def)
qed

text \<open>A device with one photo and a model that answers with one output tensor.\<close>

definition demo_world :: world where
  "demo_world =
     \<lparr>files = Map.empty(''file:///photo.jpg'' \<mapsto> [255, 216, 255]),
      math_random = (\<lambda>i. 1 / 4),
      drawn = 0,
      session = Some \<lparr>inputNames = [''input1''], outputNames = [''output1''],
                      run = (\<lambda>feeds. Inr [(''output1'',
                               \<lparr>dtype = ''float32'', tdata = [], dims = [1, 3, 224, 224]\<rparr>)])\<rparr>,
      originalPhoto = Some ''file:///photo.jpg'',
      processedPhoto = None,
      processing = False,
      shown = []\<rparr>"

lemma processImageWithAI_demo:
  "fst (processImageWithAI demo_world ''file:///photo.jpg'') = Inr ''file:///photo.jpg''"
  by (simp add: processImageWithAI_def preprocessImage_def demo_world_def first_name_def Let_def)

theorem inference_pipeline_is_placeholder_witness:
  "fst (processImageWithAI demo_world ''file:///photo.jpg'') = Inr ''file:///photo.jpg''
   \<and> originalPhoto demo_world = Some ''file:///photo.jpg''
   \<and> processedPhoto (processCurrentPhoto demo_world) = Some ''file:///photo.jpg''
   \<and> fst (preprocessImage (demo_world\<lparr>files := Map.empty\<rparr>) ''file:///other.png'')
       = fst (preprocessImage demo_world ''file:///photo.jpg'')"
  using inference_pipeline_is_placeholder
    [where w = demo_world and fs = Map.empty and imagePath' = "''file:///other.png''"
       and imagePath = "''file:///photo.jpg''" and processedPath = "''file:///photo.jpg''"]
  by (simp add: processImageWithAI_demo) (simp add: demo_world_def)

end
